theory Spec2Isabelle
  imports
    Complex_Main
    "HOL-Library.AList"
    "HOL-Library.Multiset"
    "HOL-Library.Sublist"
    "HOL-Library.Char_ord"
    "HOL-Library.List_Lexorder"
    "HOL-Library.Product_Lexorder"
begin

section \<open>Data model\<close>

text \<open>
  The script \<^verbatim>\<open>automotive-pricing-intelligence.py\<close> is a straight-line pandas pipeline.
  A cell of the table is a number, an infinity (what a float division by zero produces), a
  missing value (pandas' NaN / NA), or a text. Finite numbers are exact rationals: the rounding
  and the signed zero of the machine's doubles are not part of the model. The library calls
  follow pandas 1 and 2 (where \<^verbatim>\<open>astype(str)\<close> turns a missing value into a text), and
  writing a file always succeeds.
\<close>

datatype cell = Num rat | PInf | NInf | NA | Txt string

text \<open>
  A row maps column names to cells and keeps the column order; a frame is the list of column
  names (which exists also when there is no row) and the rows in index order.
\<close>

type_synonym row = "(string \<times> cell) list"

record frame =
  columns :: "string list"
  rows :: "row list"

definition look :: "row \<Rightarrow> string \<Rightarrow> cell" where
  "look r c = (case map_of r c of Some v \<Rightarrow> v | None \<Rightarrow> NA)"

text \<open>\<^verbatim>\<open>df[c] = f(row)\<close>: an existing column is overwritten in place, a new one is appended.\<close>

definition set_col :: "string \<Rightarrow> (row \<Rightarrow> cell) \<Rightarrow> frame \<Rightarrow> frame" where
  "set_col c f df =
     \<lparr>columns = (if c \<in> set (columns df) then columns df else columns df @ [c]),
      rows = map (\<lambda>r. AList.update c (f r) r) (rows df)\<rparr>"

text \<open>\<^verbatim>\<open>df[c] = g(df[c])\<close> for a cell-wise \<open>g\<close>.\<close>

definition map_row :: "string \<Rightarrow> (cell \<Rightarrow> cell) \<Rightarrow> row \<Rightarrow> row" where
  "map_row c g r = map (\<lambda>(k, v). if k = c then (k, g v) else (k, v)) r"

definition map_col :: "string \<Rightarrow> (cell \<Rightarrow> cell) \<Rightarrow> frame \<Rightarrow> frame" where
  "map_col c g df = df\<lparr>rows := map (map_row c g) (rows df)\<rparr>"

text \<open>
  A frame as \<^verbatim>\<open>read_excel\<close> delivers it: the column names are pairwise different (pandas
  renames repeated headers) and every row has exactly the frame's columns.
\<close>

definition wf_frame :: "frame \<Rightarrow> bool" where
  "wf_frame df = (distinct (columns df) \<and> list_all (\<lambda>r. map fst r = columns df) (rows df))"

subsection \<open>The library routines the script calls\<close>

text \<open>
  Three routines of pandas and numpy are parameters of the model, because their results are
  not fixed by the script: the numeric parser behind \<^verbatim>\<open>pd.to_numeric\<close>, the text
  \<^verbatim>\<open>astype(str)\<close> gives a finite number, and numpy's \<^verbatim>\<open>argsort\<close> with the default
  \<^verbatim>\<open>kind='quicksort'\<close>, which returns the positions of the values in ascending order and
  leaves the order of equal values open.
\<close>

type_synonym ckey = "nat \<times> rat \<times> string"

record lib =
  to_float :: "string \<Rightarrow> cell"
  str_of :: "rat \<Rightarrow> string"
  argsort :: "ckey list \<Rightarrow> nat list"

text \<open>
  The order numpy sorts by: minus infinity, the finite numbers, plus infinity; texts by code
  point. A column never mixes numbers and texts when it is sorted (after trimming a column is
  all text or free of text), and missing values are set apart before sorting.
\<close>

fun cell_key :: "cell \<Rightarrow> ckey" where
  "cell_key NInf = (0, 0, [])"
| "cell_key (Num q) = (1, q, [])"
| "cell_key PInf = (2, 0, [])"
| "cell_key (Txt s) = (3, 0, s)"
| "cell_key NA = (4, 0, [])"

definition argsort_ok :: "(ckey list \<Rightarrow> nat list) \<Rightarrow> bool" where
  "argsort_ok f =
     (\<forall>vs. mset (f vs) = mset [0..<length vs] \<and> sorted (map (nth vs) (f vs)))"

text \<open>Two sorting routines that meet the contract: a stable one, and one that reverses ties.\<close>

definition argsort_stable :: "ckey list \<Rightarrow> nat list" where
  "argsort_stable vs = sort_key (nth vs) [0..<length vs]"


subsection \<open>Float arithmetic on cells\<close>

text \<open>
  IEEE special cases as numpy applies them; a missing operand gives a missing result. The
  operands are always numeric columns (they went through \<^verbatim>\<open>to_numeric\<close>), so the text
  case is never reached; it is mapped to the missing value.
\<close>

fun cell_neg :: "cell \<Rightarrow> cell" where
  "cell_neg (Num a) = Num (- a)"
| "cell_neg PInf = NInf"
| "cell_neg NInf = PInf"
| "cell_neg NA = NA"
| "cell_neg (Txt s) = NA"

fun cell_add :: "cell \<Rightarrow> cell \<Rightarrow> cell" where
  "cell_add (Num a) (Num b) = Num (a + b)"
| "cell_add (Num a) PInf = PInf"
| "cell_add (Num a) NInf = NInf"
| "cell_add PInf (Num b) = PInf"
| "cell_add PInf PInf = PInf"
| "cell_add NInf (Num b) = NInf"
| "cell_add NInf NInf = NInf"
| "cell_add x y = NA"

definition cell_sub :: "cell \<Rightarrow> cell \<Rightarrow> cell" where
  "cell_sub x y = cell_add x (cell_neg y)"

definition signed_inf :: "bool \<Rightarrow> cell" where
  "signed_inf positive = (if positive then PInf else NInf)"

fun cell_mul :: "cell \<Rightarrow> cell \<Rightarrow> cell" where
  "cell_mul (Num a) (Num b) = Num (a * b)"
| "cell_mul (Num a) PInf = (if a = 0 then NA else signed_inf (0 < a))"
| "cell_mul (Num a) NInf = (if a = 0 then NA else signed_inf (a < 0))"
| "cell_mul PInf (Num b) = (if b = 0 then NA else signed_inf (0 < b))"
| "cell_mul NInf (Num b) = (if b = 0 then NA else signed_inf (b < 0))"
| "cell_mul PInf PInf = PInf"
| "cell_mul PInf NInf = NInf"
| "cell_mul NInf PInf = NInf"
| "cell_mul NInf NInf = PInf"
| "cell_mul x y = NA"

fun cell_div :: "cell \<Rightarrow> cell \<Rightarrow> cell" where
  "cell_div (Num a) (Num b) =
     (if b = 0 then (if a = 0 then NA else signed_inf (0 < a)) else Num (a / b))"
| "cell_div (Num a) PInf = Num 0"
| "cell_div (Num a) NInf = Num 0"
| "cell_div PInf (Num b) = signed_inf (0 \<le> b)"
| "cell_div NInf (Num b) = signed_inf (b < 0)"
| "cell_div x y = NA"

text \<open>Comparisons of a numeric cell: every comparison with a missing value is false.\<close>

definition cell_numeric :: "cell \<Rightarrow> bool" where
  "cell_numeric x = (case x of NA \<Rightarrow> False | Txt s \<Rightarrow> False | _ \<Rightarrow> True)"

definition cell_le :: "cell \<Rightarrow> cell \<Rightarrow> bool" where
  "cell_le x y = (cell_numeric x \<and> cell_numeric y \<and> cell_key x \<le> cell_key y)"

definition cell_gt :: "cell \<Rightarrow> cell \<Rightarrow> bool" where
  "cell_gt x y = (cell_numeric x \<and> cell_numeric y \<and> cell_key y < cell_key x)"

section \<open>Cleaning\<close>

subsection \<open>Trimming the text columns\<close>

text \<open>
  \<^verbatim>\<open>text_cols = df.select_dtypes(include=['object']).columns\<close>: \<^verbatim>\<open>read_excel\<close> gives a
  column the object dtype when it holds a text, so the dtype is read off the cells (a column
  without rows counts as numeric).
\<close>

fun is_txt :: "cell \<Rightarrow> bool" where
  "is_txt (Txt s) = True"
| "is_txt x = False"

definition is_object :: "frame \<Rightarrow> string \<Rightarrow> bool" where
  "is_object df c = list_ex (\<lambda>r. is_txt (look r c)) (rows df)"

definition text_cols :: "frame \<Rightarrow> string list" where
  "text_cols df = filter (is_object df) (columns df)"

text \<open>The white space \<^verbatim>\<open>str.strip()\<close> removes, as far as it is ASCII.\<close>

definition is_space :: "char \<Rightarrow> bool" where
  "is_space ch = (ch \<in> set [CHR '' '', CHR 0x09, CHR 0x0A, CHR 0x0B, CHR 0x0C, CHR 0x0D,
                             CHR 0x1C, CHR 0x1D, CHR 0x1E, CHR 0x1F])"

definition strip :: "string \<Rightarrow> string" where
  "strip s = rev (dropWhile is_space (rev (dropWhile is_space s)))"

text \<open>\<^verbatim>\<open>astype(str)\<close>: the missing value becomes the text \<^verbatim>\<open>nan\<close>.\<close>

fun astype_str :: "lib \<Rightarrow> cell \<Rightarrow> string" where
  "astype_str L (Txt s) = s"
| "astype_str L NA = ''nan''"
| "astype_str L PInf = ''inf''"
| "astype_str L NInf = ''-inf''"
| "astype_str L (Num q) = str_of L q"

definition strip_cell :: "lib \<Rightarrow> cell \<Rightarrow> cell" where
  "strip_cell L v = Txt (strip (astype_str L v))"

definition strip_text :: "lib \<Rightarrow> frame \<Rightarrow> frame" where
  "strip_text L df = foldl (\<lambda>d c. map_col c (strip_cell L) d) df (text_cols df)"

subsection \<open>Resolving the columns\<close>

fun find_col :: "frame \<Rightarrow> string list \<Rightarrow> string option" where
  "find_col df [] = None"
| "find_col df (n # ns) = (if n \<in> set (columns df) then Some n else find_col df ns)"

record col_map =
  price :: "string option"
  competitor_price :: "string option"
  cost :: "string option"
  units :: "string option"
  part :: "string option"

definition resolve :: "frame \<Rightarrow> col_map" where
  "resolve df =
     \<lparr>price = find_col df [''Price'', ''price'', ''Unit_Price''],
      competitor_price =
        find_col df [''Competitor_Price'', ''competitor_price'', ''Comp_Price'', ''Competitor price''],
      cost = find_col df [''Cost'', ''cost'', ''Unit_Cost''],
      units = find_col df [''Units_Sold'', ''Units'', ''Quantity'', ''units_sold''],
      part = find_col df [''Part_Name'', ''Part'', ''Part_ID'', ''PartName'']\<rparr>"

subsection \<open>Numeric coercion\<close>

text \<open>
  \<^verbatim>\<open>pd.to_numeric(..., errors='coerce')\<close>: a text is parsed, and a text that is no number
  becomes missing; it never raises.
\<close>

definition to_numeric :: "lib \<Rightarrow> cell \<Rightarrow> cell" where
  "to_numeric L v =
     (case v of
        Txt s \<Rightarrow> (case to_float L s of Txt t \<Rightarrow> NA | x \<Rightarrow> x)
      | x \<Rightarrow> x)"

definition coerce :: "lib \<Rightarrow> col_map \<Rightarrow> frame \<Rightarrow> frame" where
  "coerce L cm df =
     foldl (\<lambda>d key. case key of Some c \<Rightarrow> map_col c (to_numeric L) d | None \<Rightarrow> d) df
       [price cm, competitor_price cm, cost cm, units cm]"

subsection \<open>Duplicate rows and rows with missing key fields\<close>

text \<open>
  \<^verbatim>\<open>df.drop_duplicates()\<close> (keep='first'): a row is dropped when an equal row was seen
  before it; two missing values count as equal.
\<close>

fun dedup :: "'a list \<Rightarrow> 'a list \<Rightarrow> 'a list" where
  "dedup seen [] = []"
| "dedup seen (x # xs) = (if x \<in> set seen then dedup seen xs else x # dedup (x # seen) xs)"

definition drop_duplicates :: "frame \<Rightarrow> frame" where
  "drop_duplicates df = df\<lparr>rows := dedup [] (rows df)\<rparr>"

definition dropna :: "string list \<Rightarrow> frame \<Rightarrow> frame" where
  "dropna cs df = df\<lparr>rows := filter (\<lambda>r. list_all (\<lambda>c. look r c \<noteq> NA) cs) (rows df)\<rparr>"

section \<open>Derived metrics\<close>

definition derive :: "string \<Rightarrow> string option \<Rightarrow> string option \<Rightarrow> string option \<Rightarrow> frame \<Rightarrow> frame" where
  "derive pr cp co un df =
     (let df1 = set_col ''Price_diff''
                  (\<lambda>r. case cp of Some c \<Rightarrow> cell_sub (look r pr) (look r c) | None \<Rightarrow> NA) df;
          df2 = set_col ''Price_pct_diff''
                  (\<lambda>r. case cp of
                          Some c \<Rightarrow> cell_mul (cell_div (look r ''Price_diff'') (look r c)) (Num 100)
                        | None \<Rightarrow> NA) df1;
          df3 = set_col ''Margin''
                  (\<lambda>r. case co of Some c \<Rightarrow> cell_sub (look r pr) (look r c) | None \<Rightarrow> NA) df2;
          df4 = set_col ''Revenue_calc''
                  (\<lambda>r. case un of Some u \<Rightarrow> cell_mul (look r pr) (look r u) | None \<Rightarrow> NA) df3
      in df4)"

section \<open>Sorting, quantiles, extracts\<close>

text \<open>
  \<^verbatim>\<open>sort_values(by=c, ascending=False)\<close> as pandas' \<^verbatim>\<open>nargsort\<close> computes it: the rows
  with a missing key are set apart and appended in their order; the others are reversed,
  sorted ascending by \<^verbatim>\<open>argsort\<close>, and reversed again.
\<close>

definition sort_values :: "lib \<Rightarrow> string \<Rightarrow> row list \<Rightarrow> row list" where
  "sort_values L c rs =
     (let items = rev (filter (\<lambda>r. look r c \<noteq> NA) rs);
          idx = argsort L (map (\<lambda>r. cell_key (look r c)) items)
      in rev (map (nth items) idx) @ filter (\<lambda>r. look r c = NA) rs)"

definition column :: "string \<Rightarrow> frame \<Rightarrow> cell list" where
  "column c df = map (\<lambda>r. look r c) (rows df)"

text \<open>
  \<^verbatim>\<open>Series.quantile(q)\<close>: missing values are skipped, the rest is sorted, and the value at
  position \<open>(n - 1) * q\<close> is interpolated linearly between its two neighbours; an empty
  series gives a missing value.
\<close>

definition quantile :: "rat \<Rightarrow> cell list \<Rightarrow> cell" where
  "quantile q vs =
     (let xs = sort_key cell_key (filter (\<lambda>v. v \<noteq> NA) vs); n = length xs in
      if n = 0 then NA
      else let pos = of_nat (n - 1) * q;
               lo = nat \<lfloor>pos\<rfloor>;
               hi = min (lo + 1) (n - 1);
               frac = pos - of_nat lo
           in cell_add (xs ! lo) (cell_mul (cell_sub (xs ! hi) (xs ! lo)) (Num frac)))"

definition rev_col :: "frame \<Rightarrow> string" where
  "rev_col df =
     (let c = (case find_col df [''Revenue'', ''revenue''] of Some n \<Rightarrow> n | None \<Rightarrow> ''Revenue_calc'')
      in if c \<notin> set (columns df) then ''Revenue_calc'' else c)"

definition top_revenue :: "lib \<Rightarrow> frame \<Rightarrow> frame" where
  "top_revenue L df = df\<lparr>rows := take 20 (sort_values L (rev_col df) (rows df))\<rparr>"

definition overpriced :: "lib \<Rightarrow> frame \<Rightarrow> frame" where
  "overpriced L df =
     df\<lparr>rows := sort_values L ''Price_pct_diff''
                (filter (\<lambda>r. cell_gt (look r ''Price_pct_diff'') (Num 10)) (rows df))\<rparr>"

definition low_margin_high_sales :: "lib \<Rightarrow> string \<Rightarrow> frame \<Rightarrow> frame" where
  "low_margin_high_sales L un df =
     (let margin_q = quantile (1 / 4) (column ''Margin'' df);
          units_q = quantile (3 / 4) (column un df)
      in df\<lparr>rows := sort_values L un
                   (filter (\<lambda>r. cell_le (look r ''Margin'') margin_q \<and> cell_le units_q (look r un))
                      (rows df))\<rparr>)"

section \<open>The run: files, console, exit status\<close>

text \<open>
  The world of a run is the directory (file name to content) and the trace of what the run
  did: the lines it printed and the files it wrote, in order. A printed line is the list of the
  arguments of \<^verbatim>\<open>print\<close>; the text pandas renders for a Series or a DataFrame is not
  modelled (\<open>PObj\<close>). A CSV file is the frame written, a chart is the values plotted.
\<close>

datatype parg = PStr string | PNat nat | PList "string list" | POpt "string option" | PObj

datatype content = Workbook frame | Csv frame | Png "cell list" | Other

datatype event = Print "parg list" | Write string

record world =
  files :: "string \<Rightarrow> content option"
  trace :: "event list"

datatype py_error = KeyError string | TypeError | ValueError | BadFile

datatype outcome = Finished | SysExit nat | Uncaught py_error

text \<open>The exit status of the process: an uncaught exception ends the interpreter with 1.\<close>

fun exit_status :: "outcome \<Rightarrow> nat" where
  "exit_status Finished = 0"
| "exit_status (SysExit n) = n"
| "exit_status (Uncaught e) = 1"

definition print :: "parg list \<Rightarrow> world \<Rightarrow> world" where
  "print args w = w\<lparr>trace := trace w @ [Print args]\<rparr>"

definition write_file :: "string \<Rightarrow> content \<Rightarrow> world \<Rightarrow> world" where
  "write_file name f w = w\<lparr>files := (files w)(name \<mapsto> f), trace := trace w @ [Write name]\<rparr>"

definition console :: "world \<Rightarrow> parg list list" where
  "console w = concat (map (\<lambda>e. case e of Print args \<Rightarrow> [args] | Write n \<Rightarrow> []) (trace w))"

definition written :: "world \<Rightarrow> string list" where
  "written w = concat (map (\<lambda>e. case e of Print args \<Rightarrow> [] | Write n \<Rightarrow> [n]) (trace w))"

definition file_name :: string where
  "file_name = ''automotive_pricing_bi_dataset.xlsx''"

definition clean_name :: string where
  "clean_name = ''cleaned_automotive_pricing.csv''"

text \<open>The characters of the messages that are not ASCII, as their UTF-8 bytes.\<close>

definition nl :: char where "nl = CHR 0x0A"

definition check_mark :: string where "check_mark = [CHR 0xE2, CHR 0x9C, CHR 0x85]"

definition em_dash :: string where "em_dash = [CHR 0xE2, CHR 0x80, CHR 0x94]"

definition money_bag :: string where "money_bag = [CHR 0xF0, CHR 0x9F, CHR 0x92, CHR 0xB0]"

definition globe :: string where "globe = [CHR 0xF0, CHR 0x9F, CHR 0x8C, CHR 0x8D]"

definition chart_up :: string where "chart_up = [CHR 0xF0, CHR 0x9F, CHR 0x93, CHR 0x88]"

definition bar_chart :: string where "bar_chart = [CHR 0xF0, CHR 0x9F, CHR 0x93, CHR 0x8A]"

text \<open>
  \<^verbatim>\<open>pd.read_excel\<close> raises on a file that is no workbook; the frame it reads from a
  workbook is well formed (\<open>wf_frame\<close>), which the theorems that need it assume.
\<close>

definition read_excel :: "content \<Rightarrow> py_error + frame" where
  "read_excel f = (case f of Workbook df \<Rightarrow> Inr df | _ \<Rightarrow> Inl BadFile)"

definition print_col_map :: "col_map \<Rightarrow> world \<Rightarrow> world" where
  "print_col_map cm w =
     foldl (\<lambda>w' (k, v). print [PStr k, PStr ''->'', POpt v] w') w
       [(''price'', price cm), (''competitor_price'', competitor_price cm), (''cost'', cost cm),
        (''units'', units cm), (''part'', part cm)]"

subsection \<open>Exports\<close>

definition export :: "lib \<Rightarrow> col_map \<Rightarrow> frame \<Rightarrow> world \<Rightarrow> world" where
  "export L cm df w =
     (let w1 = print [PStr (nl # check_mark @ '' Cleaned CSV saved as:''), PStr clean_name]
                 (write_file clean_name (Csv df) w);
          w2 = print [PStr ''Top 20 by revenue saved to top20_by_revenue.csv'']
                 (write_file ''top20_by_revenue.csv'' (Csv (top_revenue L df)) w1);
          w3 = (case competitor_price cm of
                  Some cp \<Rightarrow>
                    print [PStr ''Parts priced >10% above competitor saved to parts_overpriced_gt10pct.csv'']
                      (write_file ''parts_overpriced_gt10pct.csv'' (Csv (overpriced L df)) w2)
                | None \<Rightarrow>
                    print [PStr (''Competitor price column not found '' @ em_dash @
                                 '' skipping overpriced list.'')] w2)
      in case (cost cm, units cm) of
           (Some co, Some un) \<Rightarrow>
             print [PStr ''Low margin & high sales parts saved to low_margin_high_sales.csv'']
               (write_file ''low_margin_high_sales.csv'' (Csv (low_margin_high_sales L un df)) w3)
         | _ \<Rightarrow>
             print [PStr (''Cost or Units column not found '' @ em_dash @
                          '' skipping low-margin-high-sales list.'')] w3)"

subsection \<open>Charts\<close>

text \<open>
  \<^verbatim>\<open>Series.dropna().hist(bins=20)\<close>: the bin range is taken from the data, and numpy's
  histogram raises \<^verbatim>\<open>ValueError\<close> when that range is not finite. An empty series is plotted.
\<close>

definition hist :: "cell list \<Rightarrow> py_error + content" where
  "hist vs =
     (let xs = filter (\<lambda>v. v \<noteq> NA) vs
      in if PInf \<in> set xs \<or> NInf \<in> set xs then Inl ValueError else Inr (Png xs))"

definition charts :: "col_map \<Rightarrow> string \<Rightarrow> frame \<Rightarrow> world \<Rightarrow> py_error option \<times> world" where
  "charts cm pr df w =
     (case hist (column pr df) of
        Inl e \<Rightarrow> (Some e, w)
      | Inr img \<Rightarrow>
          (let w1 = print [PStr ''Saved chart_price_distribution.png'']
                      (write_file ''chart_price_distribution.png'' img w)
           in case competitor_price cm of
                None \<Rightarrow> (None, print [PStr ''No competitor price -> skipped chart_price_pct_diff''] w1)
              | Some cp \<Rightarrow>
                  (case hist (column ''Price_pct_diff'' df) of
                     Inl e \<Rightarrow> (Some e, w1)
                   | Inr img2 \<Rightarrow>
                       (None, print [PStr ''Saved chart_price_pct_diff.png'']
                                (write_file ''chart_price_pct_diff.png'' img2 w1)))))"

subsection \<open>The manifest loop and the extra analytics block nested in it\<close>

text \<open>
  The block under \<^verbatim>\<open>EXTRA ANALYTICS SECTION\<close> is indented into the body of
  \<^verbatim>\<open>if os.path.exists(f):\<close>, so it runs for every listed file that exists. It reads the
  columns Brand, Revenue, Region, Gross_Margin_%, Profit, Cost and Price by their literal
  names; a column that is absent raises \<^verbatim>\<open>KeyError\<close>. The mean of a text column raises
  \<^verbatim>\<open>TypeError\<close> and the correlation over a text column \<^verbatim>\<open>ValueError\<close> (pandas 2).
\<close>

definition extra_analytics :: "lib \<Rightarrow> frame \<Rightarrow> world \<Rightarrow> py_error option \<times> world" where
  "extra_analytics L df w =
     (let w1 = print [PStr (nl # ''--- EXTRA ANALYTICS SUMMARY ---'')] w in
      if ''Brand'' \<notin> set (columns df) then (Some (KeyError ''Brand''), w1)
      else if ''Revenue'' \<notin> set (columns df) then (Some (KeyError ''Revenue''), w1)
      else
        let w2 = print [PObj] (print [PStr (nl # money_bag @ '' Revenue by Brand:'')] w1) in
        if ''Region'' \<notin> set (columns df) then (Some (KeyError ''Region''), w2)
        else if ''Gross_Margin_%'' \<notin> set (columns df) then (Some (KeyError ''Gross_Margin_%''), w2)
        else if is_object df ''Gross_Margin_%'' then (Some TypeError, w2)
        else
          let w3 = print [PObj]
                     (print [PStr (nl # globe @ '' Average Gross Margin (%) by Region:'')] w2) in
          if ''Profit'' \<notin> set (columns df) then (Some (KeyError ''Profit''), w3)
          else
            let top = df\<lparr>rows := take 10 (sort_values L ''Profit'' (rows df))\<rparr>;
                w4 = print [PStr (nl # chart_up @
                                  '' Top 10 profitable parts saved to top10_profitable_parts.csv'')]
                       (write_file ''top10_profitable_parts.csv'' (Csv top) w3);
                w5 = print [PStr (nl # bar_chart @
                                  '' Correlation between Cost, Price, and Profit:'')] w4 in
            if ''Cost'' \<notin> set (columns df) then (Some (KeyError ''Cost''), w5)
            else if ''Price'' \<notin> set (columns df) then (Some (KeyError ''Price''), w5)
            else if is_object df ''Profit'' then (Some ValueError, w5)
            else (None, print [PStr (nl # check_mark @ '' Extra analytics completed.'')]
                          (print [PObj] w5)))"

definition output_names :: "string list" where
  "output_names =
     [''cleaned_automotive_pricing.csv'', ''top20_by_revenue.csv'',
      ''parts_overpriced_gt10pct.csv'', ''low_margin_high_sales.csv'',
      ''chart_price_distribution.png'', ''chart_price_pct_diff.png'']"

fun manifest :: "lib \<Rightarrow> frame \<Rightarrow> string list \<Rightarrow> world \<Rightarrow> outcome \<times> world" where
  "manifest L df [] w = (Finished, w)"
| "manifest L df (f # fs) w =
     (if files w f \<noteq> None then
        (case extra_analytics L df (print [PStr '' -'', PStr f] w) of
           (Some e, w') \<Rightarrow> (Uncaught e, w')
         | (None, w') \<Rightarrow> manifest L df fs w')
      else manifest L df fs w)"

subsection \<open>The script\<close>

definition pipeline :: "lib \<Rightarrow> frame \<Rightarrow> world \<Rightarrow> outcome \<times> world" where
  "pipeline L df0 w =
     (let w1 = print [PStr ''Column names:'', PList (columns df0)]
                 (print [PStr ''Loaded file. Rows:'', PNat (length (rows df0)),
                         PStr ''Columns:'', PNat (length (columns df0))] w);
          df1 = strip_text L df0;
          cm = resolve df1;
          w2 = print_col_map cm
                 (print [PStr (nl # ''Detected columns (may be None if missing):'')] w1);
          df2 = coerce L cm df1;
          df3 = drop_duplicates df2;
          w3 = print [PStr (nl # ''Removed duplicates: ''),
                      PNat (length (rows df2) - length (rows df3)), PStr '' rows dropped''] w2
      in case (price cm, part cm) of
           (Some pr, Some pa) \<Rightarrow>
             (let df4 = dropna [pr, pa] df3;
                  w4 = print [PStr ''Rows after dropping missing key fields:'',
                              PNat (length (rows df4))] w3;
                  df5 = derive pr (competitor_price cm) (cost cm) (units cm) df4;
                  w5 = export L cm df5 w4
              in case charts cm pr df5 w5 of
                   (Some e, w6) \<Rightarrow> (Uncaught e, w6)
                 | (None, w6) \<Rightarrow>
                     manifest L df5 output_names
                       (print [PStr (nl # ''All done. Output files in project folder:'')] w6))
         | _ \<Rightarrow>
             (SysExit 1,
              print [PStr (''ERROR: Required column(s) missing (price or part). '' @
                           ''Please check column names and run again.'')] w3))"

definition main :: "lib \<Rightarrow> world \<Rightarrow> outcome \<times> world" where
  "main L w =
     (case files w file_name of
        None \<Rightarrow>
          (SysExit 1,
           print [PStr ''Please put the file in the same folder as this script and run again.'']
             (print [PStr ''ERROR: Excel file not found in project folder:'', PStr file_name] w))
      | Some f \<Rightarrow>
          (case read_excel f of
             Inl e \<Rightarrow> (Uncaught e, w)
           | Inr df0 \<Rightarrow> pipeline L df0 w))"

text \<open>
  Names for the tables the script passes through: the loaded table after trimming and numeric
  coercion, the cleaned table (duplicates and rows with a missing key field removed), and the
  cleaned table with the derived columns, which the exports and the charts read.
\<close>

definition prepared :: "lib \<Rightarrow> frame \<Rightarrow> frame" where
  "prepared L df0 = (let df1 = strip_text L df0 in coerce L (resolve df1) df1)"

definition cleaned :: "lib \<Rightarrow> frame \<Rightarrow> string \<Rightarrow> string \<Rightarrow> frame" where
  "cleaned L df0 pr pa = dropna [pr, pa] (drop_duplicates (prepared L df0))"

definition derived :: "lib \<Rightarrow> frame \<Rightarrow> string \<Rightarrow> string \<Rightarrow> frame" where
  "derived L df0 pr pa =
     (let cm = resolve (strip_text L df0)
      in derive pr (competitor_price cm) (cost cm) (units cm) (cleaned L df0 pr pa))"

text \<open>What trimming and coercion do to one row of the loaded table.\<close>

definition prep_row :: "lib \<Rightarrow> frame \<Rightarrow> row \<Rightarrow> row" where
  "prep_row L df0 r =
     (let r1 = foldl (\<lambda>r c. map_row c (strip_cell L) r) r (text_cols df0);
          cm = resolve (strip_text L df0)
      in foldl (\<lambda>r key. case key of Some c \<Rightarrow> map_row c (to_numeric L) r | None \<Rightarrow> r) r1
           [price cm, competitor_price cm, cost cm, units cm])"

text \<open>What the derivation of the metrics does to one row.\<close>

definition derive_row :: "string \<Rightarrow> string option \<Rightarrow> string option \<Rightarrow> string option \<Rightarrow> row \<Rightarrow> row" where
  "derive_row pr cp co un r =
     (let r1 = AList.update ''Price_diff''
                 (case cp of Some c \<Rightarrow> cell_sub (look r pr) (look r c) | None \<Rightarrow> NA) r;
          r2 = AList.update ''Price_pct_diff''
                 (case cp of
                    Some c \<Rightarrow> cell_mul (cell_div (look r1 ''Price_diff'') (look r1 c)) (Num 100)
                  | None \<Rightarrow> NA) r1;
          r3 = AList.update ''Margin''
                 (case co of Some c \<Rightarrow> cell_sub (look r2 pr) (look r2 c) | None \<Rightarrow> NA) r2
      in AList.update ''Revenue_calc''
           (case un of Some u \<Rightarrow> cell_mul (look r3 pr) (look r3 u) | None \<Rightarrow> NA) r3)"

definition derived_names :: "string list" where
  "derived_names = [''Price_diff'', ''Price_pct_diff'', ''Margin'', ''Revenue_calc'']"

text \<open>Inputs used to run the definitions on concrete tables.\<close>

definition lib0 :: lib where
  "lib0 = \<lparr>to_float = (\<lambda>s. NA), str_of = (\<lambda>q. ''0''), argsort = argsort_stable\<rparr>"

definition parts_table :: frame where
  "parts_table =
     \<lparr>columns = [''Part_Name'', ''Price'', ''Competitor_Price'', ''Cost'', ''Units_Sold''],
      rows =
        [[(''Part_Name'', Txt ''Brake pad''), (''Price'', Num 120), (''Competitor_Price'', Num 100),
          (''Cost'', Num 90), (''Units_Sold'', Num 2)],
         [(''Part_Name'', Txt ''Oil filter''), (''Price'', Num 50), (''Competitor_Price'', Num 50),
          (''Cost'', Num 30), (''Units_Sold'', Num 4)]]\<rparr>"


text \<open>
  Descending order with the missing values last, and the property that rows with the same key
  come in the order the input has them.
\<close>

definition desc_na_last :: "cell \<Rightarrow> cell \<Rightarrow> bool" where
  "desc_na_last x y = (y = NA \<or> x \<noteq> NA \<and> cell_key y \<le> cell_key x)"




definition margin_table :: frame where
  "margin_table =
     \<lparr>columns = [''Part_Name'', ''Price'', ''Margin''],
      rows =
        [[(''Part_Name'', Txt ''Brake pad''), (''Price'', Num 120), (''Margin'', Num 1)],
         [(''Part_Name'', Txt ''Brake pad''), (''Price'', Num 120), (''Margin'', Num 2)]]\<rparr>"

text \<open>
  Names for what the theorems about a run refer to: the world after the messages of loading,
  resolving and cleaning, and the lines that mark the extra analytics block, the manifest and
  the two fatal exits.
\<close>

definition report :: "lib \<Rightarrow> frame \<Rightarrow> world \<Rightarrow> world" where
  "report L df0 w =
     (let cm = resolve (strip_text L df0);
          w1 = print [PStr ''Column names:'', PList (columns df0)]
                 (print [PStr ''Loaded file. Rows:'', PNat (length (rows df0)),
                         PStr ''Columns:'', PNat (length (columns df0))] w);
          w2 = print_col_map cm
                 (print [PStr (nl # ''Detected columns (may be None if missing):'')] w1)
      in print [PStr (nl # ''Removed duplicates: ''),
                PNat (length (rows (prepared L df0))
                      - length (rows (drop_duplicates (prepared L df0)))),
                PStr '' rows dropped''] w2)"

definition extra_marker :: "parg list" where
  "extra_marker = [PStr (nl # ''--- EXTRA ANALYTICS SUMMARY ---'')]"

definition all_done :: "parg list" where
  "all_done = [PStr (nl # ''All done. Output files in project folder:'')]"

definition missing_file_message :: "parg list list" where
  "missing_file_message =
     [[PStr ''ERROR: Excel file not found in project folder:'', PStr file_name],
      [PStr ''Please put the file in the same folder as this script and run again.'']]"

definition missing_column_message :: "parg list" where
  "missing_column_message =
     [PStr (''ERROR: Required column(s) missing (price or part). '' @
            ''Please check column names and run again.'')]"

definition no_competitor_notice :: "parg list" where
  "no_competitor_notice =
     [PStr (''Competitor price column not found '' @ em_dash @ '' skipping overpriced list.'')]"

definition no_cost_units_notice :: "parg list" where
  "no_cost_units_notice =
     [PStr (''Cost or Units column not found '' @ em_dash @
            '' skipping low-margin-high-sales list.'')]"

text \<open>
  \<open>extends names w w'\<close>: from \<open>w\<close> to \<open>w'\<close> the run only wrote files among \<open>names\<close>, left
  every other file as it was, and only added lines to the console.
\<close>

definition extends :: "string set \<Rightarrow> world \<Rightarrow> world \<Rightarrow> bool" where
  "extends names w w' =
     ((\<exists>xs. written w' = written w @ xs \<and> set xs \<subseteq> names)
      \<and> (\<forall>n. n \<notin> names \<longrightarrow> files w' n = files w n)
      \<and> (\<exists>ys. console w' = console w @ ys))"

definition chart_names :: "string set" where
  "chart_names = {''chart_price_distribution.png'', ''chart_price_pct_diff.png''}"

definition extra_names :: "string set" where
  "extra_names = {''top10_profitable_parts.csv''}"

text \<open>
  The world after the exports of a run whose price and part columns resolved, and a world to
  start from: a directory that holds the workbook and nothing else, nothing printed.
\<close>

definition exported :: "lib \<Rightarrow> frame \<Rightarrow> string \<Rightarrow> string \<Rightarrow> world \<Rightarrow> world" where
  "exported L df0 pr pa w =
     export L (resolve (strip_text L df0)) (derived L df0 pr pa)
       (print [PStr ''Rows after dropping missing key fields:'',
               PNat (length (rows (cleaned L df0 pr pa)))] (report L df0 w))"

definition start :: "frame \<Rightarrow> world" where
  "start df = \<lparr>files = [file_name \<mapsto> Workbook df], trace = []\<rparr>"

definition sales_table :: frame where
  "sales_table =
     \<lparr>columns = [''Part_Name'', ''Price'', ''Cost'', ''Units_Sold'', ''Competitor_Price''],
      rows =
        [[(''Part_Name'', Txt ''Wiper''), (''Price'', Num 40), (''Cost'', Num 38),
          (''Units_Sold'', Num 80), (''Competitor_Price'', Num 40)],
         [(''Part_Name'', Txt ''Oil filter''), (''Price'', Num 20), (''Cost'', Num 10),
          (''Units_Sold'', Num 50), (''Competitor_Price'', Num 16)],
         [(''Part_Name'', Txt ''Brake pad''), (''Price'', Num 30), (''Cost'', Num 10),
          (''Units_Sold'', Num 10), (''Competitor_Price'', Num 20)],
         [(''Part_Name'', Txt ''Fuse''), (''Price'', Num 10), (''Cost'', Num 9),
          (''Units_Sold'', Num 100), (''Competitor_Price'', Num 0)],
         [(''Part_Name'', Txt ''Battery''), (''Price'', Num 50), (''Cost'', Num 20),
          (''Units_Sold'', Num 5), (''Competitor_Price'', NA)]]\<rparr>"

definition no_cost_table :: frame where
  "no_cost_table =
     \<lparr>columns = [''Part_Name'', ''Price'', ''Brand'', ''Revenue'', ''Region'', ''Gross_Margin_%'',
                 ''Profit''],
      rows =
        [[(''Part_Name'', Txt ''Brake pad''), (''Price'', Num 120), (''Brand'', Txt ''Acme''),
          (''Revenue'', Num 240), (''Region'', Txt ''North''), (''Gross_Margin_%'', Num 25),
          (''Profit'', Num 60)]]\<rparr>"

definition full_table :: frame where
  "full_table =
     \<lparr>columns = [''Part_Name'', ''Brand'', ''Region'', ''Price'', ''Competitor_Price'', ''Cost'',
                 ''Units_Sold'', ''Revenue'', ''Profit'', ''Gross_Margin_%''],
      rows =
        [[(''Part_Name'', Txt ''Brake pad''), (''Brand'', Txt ''Acme''), (''Region'', Txt ''North''),
          (''Price'', Num 120), (''Competitor_Price'', Num 100), (''Cost'', Num 90),
          (''Units_Sold'', Num 2), (''Revenue'', Num 240), (''Profit'', Num 60),
          (''Gross_Margin_%'', Num 25)]]\<rparr>"

section \<open>Basic facts\<close>

lemma look_update:
  "look (AList.update c v r) k = (if k = c then v else look r k)"
  by (simp add: look_def update_conv')

subsection \<open>Duplicate removal\<close>

lemma dedup_nths:
  "dedup seen xs = nths xs {i. xs ! i \<notin> set seen \<union> set (take i xs)}"
proof (induction xs arbitrary: seen)
  case Nil
  then show ?case by simp
next
  case (Cons x xs)
  have A: "{j. Suc j \<in> {i. (x # xs) ! i \<notin> set seen \<union> set (take i (x # xs))}}
          = {j. xs ! j \<notin> set (x # seen) \<union> set (take j xs)}"
    by auto
  show ?case
  proof (cases "x \<in> set seen")
    case True
    then have B: "{j. xs ! j \<notin> set (x # seen) \<union> set (take j xs)}
                = {j. xs ! j \<notin> set seen \<union> set (take j xs)}"
      by auto
    have "dedup seen (x # xs) = dedup seen xs"
      using True by simp
    also have "\<dots> = nths xs {j. xs ! j \<notin> set seen \<union> set (take j xs)}"
      by (rule Cons.IH)
    also have "\<dots> = nths (x # xs) {i. (x # xs) ! i \<notin> set seen \<union> set (take i (x # xs))}"
      using True by (simp only: nths_Cons A B) simp
    finally show ?thesis .
  next
    case False
    have "dedup seen (x # xs) = x # dedup (x # seen) xs"
      using False by simp
    also have "\<dots> = x # nths xs {j. xs ! j \<notin> set (x # seen) \<union> set (take j xs)}"
      by (simp only: Cons.IH)
    also have "\<dots> = nths (x # xs) {i. (x # xs) ! i \<notin> set seen \<union> set (take i (x # xs))}"
      using False by (simp only: nths_Cons A) simp
    finally show ?thesis .
  qed
qed

lemma set_dedup: "set (dedup seen xs) = set xs - set seen"
  by (induction xs arbitrary: seen) auto

lemma distinct_dedup: "distinct (dedup seen xs)"
  by (induction xs arbitrary: seen) (auto simp: set_dedup)

lemma filter_nths:
  "filter Q (nths xs A) = nths xs {i. i \<in> A \<and> Q (xs ! i)}"
proof -
  have "filter Q (nths xs A) =
        map fst (filter (\<lambda>p. snd p \<in> A \<and> Q (fst p)) (zip xs [0..<length xs]))"
    by (simp add: nths_def filter_map comp_def conj_commute)
  also have "\<dots> = map fst (filter (\<lambda>p. snd p \<in> A \<and> Q (xs ! snd p)) (zip xs [0..<length xs]))"
    by (rule arg_cong [where f = "map fst"], rule filter_cong) (auto simp: set_zip)
  finally show ?thesis by (simp add: nths_def)
qed

lemma subseq_nths_self: "subseq (nths xs A) xs"
proof -
  have "subseq (map fst (filter (\<lambda>p. snd p \<in> A) (zip xs [0..<length xs])))
          (map fst (zip xs [0..<length xs]))"
    by (rule subseq_map) simp
  then show ?thesis by (simp add: nths_def)
qed

subsection \<open>Trimming and coercion work row by row\<close>

lemma rows_foldl_map_col:
  "rows (foldl (\<lambda>d c. map_col c g d) df cs) = map (\<lambda>r. foldl (\<lambda>r c. map_row c g r) r cs) (rows df)"
  by (induction cs arbitrary: df) (simp_all add: map_col_def comp_def)

lemma columns_foldl_map_col:
  "columns (foldl (\<lambda>d c. map_col c g d) df cs) = columns df"
  by (induction cs arbitrary: df) (simp_all add: map_col_def)

lemma rows_strip_text:
  "rows (strip_text L df) = map (\<lambda>r. foldl (\<lambda>r c. map_row c (strip_cell L) r) r (text_cols df)) (rows df)"
  by (simp add: strip_text_def rows_foldl_map_col)

lemma columns_strip_text: "columns (strip_text L df) = columns df"
  by (simp add: strip_text_def columns_foldl_map_col)

lemma rows_coerce:
  "rows (coerce L cm df) =
     map (\<lambda>r. foldl (\<lambda>r key. case key of Some c \<Rightarrow> map_row c (to_numeric L) r | None \<Rightarrow> r) r
            [price cm, competitor_price cm, cost cm, units cm]) (rows df)"
  by (simp add: coerce_def map_col_def comp_def split: option.splits)

lemma columns_coerce: "columns (coerce L cm df) = columns df"
  by (simp add: coerce_def map_col_def split: option.splits)

lemma rows_prepared: "rows (prepared L df0) = map (prep_row L df0) (rows df0)"
  by (simp add: prepared_def Let_def rows_coerce rows_strip_text prep_row_def comp_def)

lemma rows_cleaned:
  "rows (cleaned L df0 pr pa) =
     filter (\<lambda>r. look r pr \<noteq> NA \<and> look r pa \<noteq> NA) (dedup [] (rows (prepared L df0)))"
  by (simp add: cleaned_def dropna_def drop_duplicates_def)

text \<open>
  C10. Duplicate removal keeps, of every group of equal rows, the first one and deletes the
  later ones: the rows kept are those at the positions whose row did not occur at an earlier
  position, in increasing position. Cleaning keeps the order of the loaded table: row \<open>i\<close> of
  the loaded table becomes row \<open>i\<close> of the trimmed and coerced table, and the cleaned table
  consists of the rows of that table at the positions that are a first occurrence with price
  and part identifier present, in increasing position.
\<close>

theorem C10_first_occurrence_kept_in_order:
  "rows (drop_duplicates df) = nths (rows df) {i. rows df ! i \<notin> set (take i (rows df))}
   \<and> rows (prepared L df0) = map (prep_row L df0) (rows df0)
   \<and> rows (cleaned L df0 pr pa) =
       nths (rows (prepared L df0))
         {i. rows (prepared L df0) ! i \<notin> set (take i (rows (prepared L df0)))
             \<and> look (rows (prepared L df0) ! i) pr \<noteq> NA
             \<and> look (rows (prepared L df0) ! i) pa \<noteq> NA}
   \<and> subseq (rows (cleaned L df0 pr pa)) (rows (prepared L df0))"
proof -
  have D: "rows (drop_duplicates df) = nths (rows df) {i. rows df ! i \<notin> set (take i (rows df))}"
    for df :: frame
    by (simp add: drop_duplicates_def dedup_nths)
  have C: "rows (cleaned L df0 pr pa) =
       nths (rows (prepared L df0))
         {i. rows (prepared L df0) ! i \<notin> set (take i (rows (prepared L df0)))
             \<and> look (rows (prepared L df0) ! i) pr \<noteq> NA
             \<and> look (rows (prepared L df0) ! i) pa \<noteq> NA}"
    by (simp add: rows_cleaned dedup_nths filter_nths)
  have S: "subseq (rows (cleaned L df0 pr pa)) (rows (prepared L df0))"
    unfolding C by (rule subseq_nths_self)
  from D C S rows_prepared show ?thesis by blast
qed

subsection \<open>Column resolution\<close>

lemma find_col_Some: "find_col df ns = Some n \<Longrightarrow> n \<in> set ns \<and> n \<in> set (columns df)"
  by (induction ns) (auto split: if_splits)

lemma price_names:
  "price (resolve df) = Some n \<Longrightarrow> n \<in> set [''Price'', ''price'', ''Unit_Price'']"
  unfolding resolve_def by (simp only: col_map.simps) (drule find_col_Some, blast)

lemma competitor_names:
  "competitor_price (resolve df) = Some n \<Longrightarrow>
     n \<in> set [''Competitor_Price'', ''competitor_price'', ''Comp_Price'', ''Competitor price'']"
  unfolding resolve_def by (simp only: col_map.simps) (drule find_col_Some, blast)

lemma cost_names:
  "cost (resolve df) = Some n \<Longrightarrow> n \<in> set [''Cost'', ''cost'', ''Unit_Cost'']"
  unfolding resolve_def by (simp only: col_map.simps) (drule find_col_Some, blast)

lemma units_names:
  "units (resolve df) = Some n \<Longrightarrow>
     n \<in> set [''Units_Sold'', ''Units'', ''Quantity'', ''units_sold'']"
  unfolding resolve_def by (simp only: col_map.simps) (drule find_col_Some, blast)

lemma part_names:
  "part (resolve df) = Some n \<Longrightarrow> n \<in> set [''Part_Name'', ''Part'', ''Part_ID'', ''PartName'']"
  unfolding resolve_def by (simp only: col_map.simps) (drule find_col_Some, blast)

subsection \<open>Derived columns\<close>

lemma rows_derive:
  "rows (derive pr cp co un df) = map (derive_row pr cp co un) (rows df)"
  by (simp add: derive_def derive_row_def set_col_def Let_def comp_def)

lemma columns_derive: "set derived_names \<subseteq> set (columns (derive pr cp co un df))"
  by (simp add: derive_def set_col_def Let_def derived_names_def)


lemma look_derive_row_other:
  "k \<notin> set derived_names \<Longrightarrow> look (derive_row pr cp co un r) k = look r k"
  by (simp add: derive_row_def Let_def derived_names_def look_update)

lemma look_derive_row:
  assumes "pr \<notin> set derived_names"
    and "\<And>c. cp = Some c \<Longrightarrow> c \<notin> set derived_names"
    and "\<And>c. co = Some c \<Longrightarrow> c \<notin> set derived_names"
    and "\<And>c. un = Some c \<Longrightarrow> c \<notin> set derived_names"
  shows "look (derive_row pr cp co un r) ''Price_diff'' =
           (case cp of Some c \<Rightarrow> cell_sub (look r pr) (look r c) | None \<Rightarrow> NA)"
    and "look (derive_row pr cp co un r) ''Price_pct_diff'' =
           (case cp of
              Some c \<Rightarrow> cell_mul (cell_div (cell_sub (look r pr) (look r c)) (look r c)) (Num 100)
            | None \<Rightarrow> NA)"
    and "look (derive_row pr cp co un r) ''Margin'' =
           (case co of Some c \<Rightarrow> cell_sub (look r pr) (look r c) | None \<Rightarrow> NA)"
    and "look (derive_row pr cp co un r) ''Revenue_calc'' =
           (case un of Some u \<Rightarrow> cell_mul (look r pr) (look r u) | None \<Rightarrow> NA)"
  using assms
  by (auto simp add: derive_row_def Let_def derived_names_def look_update split: option.splits)

lemma derived_names_fresh:
  "price (resolve df) = Some n \<Longrightarrow> n \<notin> set derived_names"
  "competitor_price (resolve df) = Some n \<Longrightarrow> n \<notin> set derived_names"
  "cost (resolve df) = Some n \<Longrightarrow> n \<notin> set derived_names"
  "units (resolve df) = Some n \<Longrightarrow> n \<notin> set derived_names"
  "part (resolve df) = Some n \<Longrightarrow> n \<notin> set derived_names"
  by (auto dest!: price_names competitor_names cost_names units_names part_names
           simp: derived_names_def)

lemma rows_derived:
  "rows (derived L df0 pr pa) =
     map (derive_row pr (competitor_price (resolve (strip_text L df0)))
            (cost (resolve (strip_text L df0))) (units (resolve (strip_text L df0))))
       (rows (cleaned L df0 pr pa))"
  by (simp add: derived_def Let_def rows_derive)




subsection \<open>Cell-wise column updates\<close>

lemma keys_map_row: "map fst (map_row c g r) = map fst r"
  by (induction r) (auto simp: map_row_def)

lemma map_of_map_row:
  "map_of (map_row c g r) k = (if k = c then map_option g (map_of r k) else map_of r k)"
  by (induction r) (auto simp: map_row_def)

lemma look_map_row:
  "look (map_row c g r) k = (if k = c \<and> k \<in> fst ` set r then g (look r k) else look r k)"
proof (cases "map_of r k")
  case None
  then have "k \<notin> fst ` set r"
    by (simp add: map_of_eq_None_iff)
  with None show ?thesis
    by (cases "k = c") (simp_all add: look_def map_of_map_row)
next
  case (Some v)
  then have "k \<in> fst ` set r"
    by (metis map_of_eq_None_iff option.distinct(1))
  with Some show ?thesis
    by (cases "k = c") (simp_all add: look_def map_of_map_row)
qed

lemma keys_foldl_map_row: "map fst (foldl (\<lambda>r c. map_row c g r) r cs) = map fst r"
  by (induction cs arbitrary: r) (simp_all add: keys_map_row)


lemma keys_coerce_row:
  "map fst (foldl (\<lambda>r key. case key of Some c \<Rightarrow> map_row c g r | None \<Rightarrow> r) r ks) = map fst r"
  by (induction ks arbitrary: r) (simp_all add: keys_map_row split: option.splits)


lemma keys_prep_row: "map fst (prep_row L df0 r) = map fst r"
  unfolding prep_row_def Let_def by (simp only: keys_coerce_row keys_foldl_map_row)







subsection \<open>Sorting\<close>

lemma argsort_ok_stable: "argsort_ok argsort_stable"
  by (simp add: argsort_ok_def argsort_stable_def)


lemma argsort_indices:
  assumes "argsort_ok f"
  shows "set (f vs) = {0..<length vs}"
proof -
  have "mset (f vs) = mset [0..<length vs]"
    using assms by (simp add: argsort_ok_def)
  then have "set_mset (mset (f vs)) = set_mset (mset [0..<length vs])"
    by simp
  then show ?thesis by simp
qed

lemma mset_permuted:
  assumes "mset idx = mset [0..<length xs]"
  shows "mset (map (nth xs) idx) = mset xs"
proof -
  have "mset (map (nth xs) idx) = image_mset (nth xs) (mset idx)"
    by simp
  also have "\<dots> = image_mset (nth xs) (mset [0..<length xs])"
    by (simp only: assms)
  also have "\<dots> = mset (map (nth xs) [0..<length xs])"
    by simp
  also have "\<dots> = mset xs"
    by (simp only: map_nth)
  finally show ?thesis .
qed

lemma sorted_permuted:
  assumes ok: "argsort_ok f"
  shows "sorted (map k (map (nth xs) (f (map k xs))))"
proof -
  have S: "sorted (map (nth (map k xs)) (f (map k xs)))"
    using ok by (simp add: argsort_ok_def)
  have "map k (map (nth xs) (f (map k xs))) = map (\<lambda>i. k (xs ! i)) (f (map k xs))"
    by (simp add: comp_def)
  also have "\<dots> = map (nth (map k xs)) (f (map k xs))"
    by (rule map_cong) (use argsort_indices [OF ok, of "map k xs"] in auto)
  finally show ?thesis
    using S by (simp only:)
qed

lemma mset_sort_values:
  assumes ok: "argsort_ok (argsort L)"
  shows "mset (sort_values L c rs) = mset rs"
proof -
  let ?items = "rev (filter (\<lambda>r. look r c \<noteq> NA) rs)"
  let ?idx = "argsort L (map (\<lambda>r. cell_key (look r c)) ?items)"
  have "mset ?idx = mset [0..<length ?items]"
    using ok by (simp add: argsort_ok_def)
  then have "mset (map (nth ?items) ?idx) = mset ?items"
    by (rule mset_permuted)
  then have "mset (sort_values L c rs) =
        mset (filter (\<lambda>r. look r c \<noteq> NA) rs) + mset (filter (\<lambda>r. look r c = NA) rs)"
    by (simp add: sort_values_def Let_def)
  also have "\<dots> = mset rs"
    by (induction rs) simp_all
  finally show ?thesis .
qed

lemma set_sort_values_present:
  assumes ok: "argsort_ok (argsort L)"
  shows "set (map (nth items) (argsort L (map k items))) = set items"
proof -
  have "mset (argsort L (map k items)) = mset [0..<length items]"
    using ok by (simp add: argsort_ok_def)
  then have "mset (map (nth items) (argsort L (map k items))) = mset items"
    by (rule mset_permuted)
  then show ?thesis by (metis set_mset_mset)
qed

lemma sorted_sort_values:
  assumes ok: "argsort_ok (argsort L)"
  shows "sorted_wrt (\<lambda>a b. desc_na_last (look a c) (look b c)) (sort_values L c rs)"
proof -
  let ?k = "\<lambda>r. cell_key (look r c)"
  let ?items = "rev (filter (\<lambda>r. look r c \<noteq> NA) rs)"
  let ?ys = "map (nth ?items) (argsort L (map ?k ?items))"
  have set_ys: "set ?ys = set ?items"
    by (rule set_sort_values_present [OF ok])
  have "sorted (map ?k ?ys)"
    by (rule sorted_permuted [OF ok])
  then have "sorted_wrt (\<lambda>a b. ?k a \<le> ?k b) ?ys"
    by (simp only: sorted_map)
  then have "sorted_wrt (\<lambda>a b. ?k b \<le> ?k a) (rev ?ys)"
    by (simp only: sorted_wrt_rev)
  then have A: "sorted_wrt (\<lambda>a b. desc_na_last (look a c) (look b c)) (rev ?ys)"
    by (rule sorted_wrt_mono_rel [rotated]) (use set_ys in \<open>auto simp: desc_na_last_def\<close>)
  have B: "sorted_wrt (\<lambda>a b. desc_na_last (look a c) (look b c)) (filter (\<lambda>r. look r c = NA) rs)"
    by (rule sorted_wrt_mono_rel [where P = "\<lambda>a b. True"]) (auto simp: desc_na_last_def)
  have C: "\<forall>a\<in>set (rev ?ys). \<forall>b\<in>set (filter (\<lambda>r. look r c = NA) rs).
             desc_na_last (look a c) (look b c)"
    by (auto simp: desc_na_last_def)
  show ?thesis
    using A B C by (simp add: sort_values_def Let_def sorted_wrt_append)
qed

lemma rev_col_eq:
  "rev_col df =
     (if ''Revenue'' \<in> set (columns df) then ''Revenue''
      else if ''revenue'' \<in> set (columns df) then ''revenue'' else ''Revenue_calc'')"
  by (simp add: rev_col_def)










subsection \<open>The cleaning invariant\<close>

lemma update_fresh: "k \<notin> fst ` set r \<Longrightarrow> AList.update k v r = r @ [(k, v)]"
  by (induction r) auto

lemma derive_row_fresh:
  assumes "set derived_names \<inter> fst ` set r = {}"
  shows "\<exists>a b c d. derive_row pr cp co un r =
           r @ [(''Price_diff'', a), (''Price_pct_diff'', b), (''Margin'', c), (''Revenue_calc'', d)]"
proof -
  have 1: "''Price_diff'' \<notin> fst ` set r" and 2: "''Price_pct_diff'' \<notin> fst ` set r"
    and 3: "''Margin'' \<notin> fst ` set r" and 4: "''Revenue_calc'' \<notin> fst ` set r"
    using assms by (auto simp: derived_names_def)
  show ?thesis
    unfolding derive_row_def Let_def
    by (simp add: update_fresh 1 2 3 4 image_Un)
qed

lemma derive_row_inj:
  assumes "set derived_names \<inter> fst ` set r = {}" and "set derived_names \<inter> fst ` set s = {}"
    and "length r = length s" and "derive_row pr cp co un r = derive_row pr cp co un s"
  shows "r = s"
proof -
  obtain a b c d where R: "derive_row pr cp co un r =
      r @ [(''Price_diff'', a), (''Price_pct_diff'', b), (''Margin'', c), (''Revenue_calc'', d)]"
    using derive_row_fresh [OF assms(1)] by blast
  obtain a' b' c' d' where S: "derive_row pr cp co un s =
      s @ [(''Price_diff'', a'), (''Price_pct_diff'', b'), (''Margin'', c'), (''Revenue_calc'', d')]"
    using derive_row_fresh [OF assms(2)] by blast
  from assms(4) R S assms(3) show ?thesis by simp
qed

lemma cleaned_rows_from_prepared:
  "r \<in> set (rows (cleaned L df0 pr pa)) \<Longrightarrow> \<exists>r0 \<in> set (rows df0). r = prep_row L df0 r0"
  by (auto simp: rows_cleaned set_dedup rows_prepared)

lemma cleaned_keys:
  assumes wf: "wf_frame df0" and r: "r \<in> set (rows (cleaned L df0 pr pa))"
  shows "map fst r = columns df0"
proof -
  obtain r0 where r0: "r0 \<in> set (rows df0)" and e: "r = prep_row L df0 r0"
    using cleaned_rows_from_prepared [OF r] by blast
  have "map fst r0 = columns df0"
    using wf r0 by (simp add: wf_frame_def list_all_iff)
  then show ?thesis
    by (simp add: e keys_prep_row)
qed

lemma distinct_cleaned: "distinct (rows (cleaned L df0 pr pa))"
  by (simp add: rows_cleaned distinct_dedup)

lemma distinct_derived:
  assumes wf: "wf_frame df0" and fresh: "set derived_names \<inter> set (columns df0) = {}"
  shows "distinct (rows (derived L df0 pr pa))"
proof -
  let ?f = "derive_row pr (competitor_price (resolve (strip_text L df0)))
              (cost (resolve (strip_text L df0))) (units (resolve (strip_text L df0)))"
  have "inj_on ?f (set (rows (cleaned L df0 pr pa)))"
  proof (rule inj_onI)
    fix r s
    assume r: "r \<in> set (rows (cleaned L df0 pr pa))" and s: "s \<in> set (rows (cleaned L df0 pr pa))"
      and e: "?f r = ?f s"
    have kr: "map fst r = columns df0" and ks: "map fst s = columns df0"
      using cleaned_keys [OF wf] r s by auto
    have "fst ` set r = set (columns df0)" and "fst ` set s = set (columns df0)"
      using kr ks by (metis set_map)+
    then have 1: "set derived_names \<inter> fst ` set r = {}"
      and 2: "set derived_names \<inter> fst ` set s = {}"
      using fresh by simp_all
    have 3: "length r = length s"
      using kr ks by (metis length_map)
    show "r = s"
      by (rule derive_row_inj [OF 1 2 3 e])
  qed
  then show ?thesis
    by (simp add: rows_derived distinct_map distinct_cleaned)
qed

text \<open>
  C4 (as amended). After cleaning no two rows are equal and every row has a price and a part
  identifier. The derived columns keep the price and the part identifier of every row; they
  keep the rows pairwise different when the loaded table has no column named Price_diff,
  Price_pct_diff, Margin or Revenue_calc, so that the four columns are appended.
\<close>

theorem C4_cleaning_invariant:
  fixes L df0 pr pa
  defines "cm \<equiv> resolve (strip_text L df0)"
  assumes pr: "price cm = Some pr" and pa: "part cm = Some pa"
  shows "distinct (rows (cleaned L df0 pr pa))
    \<and> list_all (\<lambda>r. look r pr \<noteq> NA \<and> look r pa \<noteq> NA) (rows (cleaned L df0 pr pa))
    \<and> list_all (\<lambda>r. look r pr \<noteq> NA \<and> look r pa \<noteq> NA) (rows (derived L df0 pr pa))
    \<and> (wf_frame df0 \<and> set derived_names \<inter> set (columns df0) = {} \<longrightarrow>
         distinct (rows (derived L df0 pr pa)))"
proof -
  have A: "list_all (\<lambda>r. look r pr \<noteq> NA \<and> look r pa \<noteq> NA) (rows (cleaned L df0 pr pa))"
    by (simp add: rows_cleaned list_all_iff)
  have f1: "pr \<notin> set derived_names"
    using pr unfolding cm_def by (rule derived_names_fresh)
  have f2: "pa \<notin> set derived_names"
    using pa unfolding cm_def by (rule derived_names_fresh)
  have B: "list_all (\<lambda>r. look r pr \<noteq> NA \<and> look r pa \<noteq> NA) (rows (derived L df0 pr pa))"
    using A by (simp add: rows_derived list_all_iff look_derive_row_other [OF f1]
        look_derive_row_other [OF f2])
  from distinct_cleaned A B distinct_derived show ?thesis
    by blast
qed

theorem C4_cleaning_invariant_witness:
  "price (resolve (strip_text lib0 parts_table)) = Some ''Price''
   \<and> part (resolve (strip_text lib0 parts_table)) = Some ''Part_Name''
   \<and> wf_frame parts_table \<and> set derived_names \<inter> set (columns parts_table) = {}
   \<and> length (rows (derived lib0 parts_table ''Price'' ''Part_Name'')) = 2
   \<and> distinct (rows (derived lib0 parts_table ''Price'' ''Part_Name''))"
proof -
  have pr: "price (resolve (strip_text lib0 parts_table)) = Some ''Price''"
    by code_simp
  have pa: "part (resolve (strip_text lib0 parts_table)) = Some ''Part_Name''"
    by code_simp
  have wf: "wf_frame parts_table"
    by code_simp
  have fr: "set derived_names \<inter> set (columns parts_table) = {}"
    by code_simp
  have len: "length (rows (derived lib0 parts_table ''Price'' ''Part_Name'')) = 2"
    by code_simp
  from C4_cleaning_invariant [OF pr pa] wf fr
  have "distinct (rows (derived lib0 parts_table ''Price'' ''Part_Name''))"
    by blast
  with pr pa wf fr len show ?thesis by blast
qed

text \<open>
  The claim as stated fails on a table that already has a column named Margin: the derivation
  overwrites it, and two rows that differed only there become equal.
\<close>

theorem C4_overwritten_column_counterexample:
  "wf_frame margin_table
   \<and> price (resolve (strip_text lib0 margin_table)) = Some ''Price''
   \<and> part (resolve (strip_text lib0 margin_table)) = Some ''Part_Name''
   \<and> distinct (rows (cleaned lib0 margin_table ''Price'' ''Part_Name''))
   \<and> length (rows (derived lib0 margin_table ''Price'' ''Part_Name'')) = 2
   \<and> \<not> distinct (rows (derived lib0 margin_table ''Price'' ''Part_Name''))"
  by code_simp

subsection \<open>Effects of the stages\<close>

lemma print_effect:
  "files (print a w) = files w" "written (print a w) = written w"
  "console (print a w) = console w @ [a]"
  by (simp_all add: print_def written_def console_def)

lemma write_effect:
  "files (write_file n f w) = (files w)(n \<mapsto> f)" "written (write_file n f w) = written w @ [n]"
  "console (write_file n f w) = console w"
  by (simp_all add: write_file_def written_def console_def)

lemma print_col_map_effect:
  "files (print_col_map cm w) = files w" "written (print_col_map cm w) = written w"
  "console (print_col_map cm w) =
     console w @ [[PStr ''price'', PStr ''->'', POpt (price cm)],
                  [PStr ''competitor_price'', PStr ''->'', POpt (competitor_price cm)],
                  [PStr ''cost'', PStr ''->'', POpt (cost cm)],
                  [PStr ''units'', PStr ''->'', POpt (units cm)],
                  [PStr ''part'', PStr ''->'', POpt (part cm)]]"
  by (simp_all add: print_col_map_def print_effect)

lemma report_effect:
  "files (report L df0 w) = files w" "written (report L df0 w) = written w"
  by (simp_all add: report_def Let_def print_effect print_col_map_effect)

lemma report_console:
  "\<exists>ys. console (report L df0 w) = console w @ ys \<and> extra_marker \<notin> set ys \<and> all_done \<notin> set ys"
  by (simp add: report_def Let_def print_effect print_col_map_effect extra_marker_def all_done_def)

lemma pipeline_eq:
  "pipeline L df0 w =
     (let cm = resolve (strip_text L df0); w3 = report L df0 w
      in case (price cm, part cm) of
           (Some pr, Some pa) \<Rightarrow>
             (let w5 = export L cm (derived L df0 pr pa)
                         (print [PStr ''Rows after dropping missing key fields:'',
                                 PNat (length (rows (cleaned L df0 pr pa)))] w3)
              in case charts cm pr (derived L df0 pr pa) w5 of
                   (Some e, w6) \<Rightarrow> (Uncaught e, w6)
                 | (None, w6) \<Rightarrow> manifest L (derived L df0 pr pa) output_names (print all_done w6))
         | _ \<Rightarrow> (SysExit 1, print missing_column_message w3))"
  unfolding pipeline_def Let_def report_def derived_def cleaned_def prepared_def all_done_def
      missing_column_message_def
  by (rule refl)

subsection \<open>What a stage may touch\<close>

lemma extends_refl: "extends names w w"
  by (simp add: extends_def)

lemma extends_trans:
  assumes "extends A w w'" and "extends B w' w''" and "A \<subseteq> C" and "B \<subseteq> C"
  shows "extends C w w''"
proof -
  obtain xs ys where 1: "written w' = written w @ xs" "set xs \<subseteq> A" "console w' = console w @ ys"
    using assms(1) by (auto simp: extends_def)
  obtain xs' ys' where 2: "written w'' = written w' @ xs'" "set xs' \<subseteq> B"
      "console w'' = console w' @ ys'"
    using assms(2) by (auto simp: extends_def)
  have W: "written w'' = written w @ (xs @ xs') \<and> set (xs @ xs') \<subseteq> C"
    using 1 2 assms(3,4) by auto
  have F1: "\<forall>n. n \<notin> A \<longrightarrow> files w' n = files w n"
    using assms(1) by (simp add: extends_def)
  have F2: "\<forall>n. n \<notin> B \<longrightarrow> files w'' n = files w' n"
    using assms(2) by (simp add: extends_def)
  have F: "\<forall>n. n \<notin> C \<longrightarrow> files w'' n = files w n"
  proof (intro allI impI)
    fix n assume "n \<notin> C"
    then have "n \<notin> A" and "n \<notin> B"
      using assms(3,4) by auto
    then show "files w'' n = files w n"
      using F1 F2 by simp
  qed
  have Cn: "console w'' = console w @ (ys @ ys')"
    using 1 2 by simp
  from W F Cn show ?thesis
    unfolding extends_def by blast
qed

lemma extends_print: "extends names w (print a w)"
  by (simp add: extends_def print_effect)

lemma extends_write: "n \<in> names \<Longrightarrow> extends names w (write_file n f w)"
  by (simp add: extends_def write_effect)

lemma extends_print_after: "extends names w w' \<Longrightarrow> extends names w (print a w')"
  by (rule extends_trans [OF _ extends_print [of names]]) auto

lemma extends_write_after:
  "extends names w w' \<Longrightarrow> n \<in> names \<Longrightarrow> extends names w (write_file n f w')"
  by (rule extends_trans [OF _ extends_write [of n names]]) auto

subsection \<open>Exports\<close>

lemma exports_written:
  "written (export L cm df w) =
     written w @ [clean_name, ''top20_by_revenue.csv'']
       @ (case competitor_price cm of Some c \<Rightarrow> [''parts_overpriced_gt10pct.csv''] | None \<Rightarrow> [])
       @ (case cost cm of
            Some co \<Rightarrow> (case units cm of Some un \<Rightarrow> [''low_margin_high_sales.csv''] | None \<Rightarrow> [])
          | None \<Rightarrow> [])"
  by (simp add: export_def Let_def print_effect write_effect split: option.splits)

lemma exports_contents:
  "files (export L cm df w) clean_name = Some (Csv df)"
  "files (export L cm df w) ''top20_by_revenue.csv'' = Some (Csv (top_revenue L df))"
  "files (export L cm df w) ''parts_overpriced_gt10pct.csv'' =
     (case competitor_price cm of
        Some c \<Rightarrow> Some (Csv (overpriced L df))
      | None \<Rightarrow> files w ''parts_overpriced_gt10pct.csv'')"
  "files (export L cm df w) ''low_margin_high_sales.csv'' =
     (case cost cm of
        Some co \<Rightarrow> (case units cm of
                      Some un \<Rightarrow> Some (Csv (low_margin_high_sales L un df))
                    | None \<Rightarrow> files w ''low_margin_high_sales.csv'')
      | None \<Rightarrow> files w ''low_margin_high_sales.csv'')"
  by (simp_all add: export_def Let_def print_effect write_effect clean_name_def
      split: option.splits)

lemma exports_console:
  "\<exists>ys. console (export L cm df w) = console w @ ys
        \<and> extra_marker \<notin> set ys \<and> all_done \<notin> set ys
        \<and> (competitor_price cm = None \<longrightarrow> no_competitor_notice \<in> set ys)
        \<and> (cost cm = None \<or> units cm = None \<longrightarrow> no_cost_units_notice \<in> set ys)"
  by (auto simp add: export_def Let_def print_effect write_effect extra_marker_def all_done_def
      no_competitor_notice_def no_cost_units_notice_def split: option.splits)

subsection \<open>Charts\<close>

lemma charts_extends: "extends chart_names w (snd (charts cm pr df w))"
  by (auto simp: charts_def Let_def chart_names_def extends_refl
      intro!: extends_print_after extends_write_after extends_write extends_print
      split: sum.splits option.splits)

lemma charts_console:
  "\<exists>ys. console (snd (charts cm pr df w)) = console w @ ys
        \<and> extra_marker \<notin> set ys \<and> all_done \<notin> set ys"
  by (auto simp: charts_def Let_def print_effect write_effect extra_marker_def all_done_def
      split: sum.splits option.splits)

lemma charts_pct_not_written:
  "competitor_price cm = None \<Longrightarrow>
   written (snd (charts cm pr df w)) = written w \<or>
   written (snd (charts cm pr df w)) = written w @ [''chart_price_distribution.png'']"
  by (auto simp: charts_def Let_def print_effect write_effect split: sum.splits)

subsection \<open>The extra analytics block and the manifest loop\<close>

lemma extra_extends: "extends extra_names w (snd (extra_analytics L df w))"
  by (auto simp: extra_analytics_def Let_def extra_names_def
      intro!: extends_print_after extends_write_after extends_write extends_print)

lemma extra_console:
  "\<exists>ys. console (snd (extra_analytics L df w)) = console w @ extra_marker # ys"
  by (auto simp: extra_analytics_def Let_def print_effect write_effect extra_marker_def)

lemma manifest_extends: "extends extra_names w (snd (manifest L df fs w))"
proof (induction fs arbitrary: w)
  case Nil
  then show ?case by (simp add: extends_refl)
next
  case (Cons f fs)
  show ?case
  proof (cases "files w f \<noteq> None")
    case False
    then show ?thesis using Cons.IH [of w] by simp
  next
    case True
    let ?w1 = "print [PStr '' -'', PStr f] w"
    obtain e w' where X: "extra_analytics L df ?w1 = (e, w')"
      by (cases "extra_analytics L df ?w1")
    have E: "extends extra_names w w'"
      using extends_trans [OF extends_print [of extra_names w] extra_extends [of ?w1 L df]] X
      by simp
    show ?thesis
    proof (cases e)
      case None
      then have "snd (manifest L df (f # fs) w) = snd (manifest L df fs w')"
        using True X by simp
      then show ?thesis
        using extends_trans [OF E Cons.IH [of w']] by simp
    next
      case (Some err)
      then have "snd (manifest L df (f # fs) w) = w'"
        using True X by simp
      then show ?thesis using E by simp
    qed
  qed
qed

lemma manifest_outcome: "fst (manifest L df fs w) \<noteq> SysExit n"
  by (induction fs arbitrary: w) (auto split: prod.splits option.splits)

lemma manifest_enters:
  assumes "files w f \<noteq> None"
  shows "extra_marker \<in> set (console (snd (manifest L df (f # fs) w)))"
proof -
  let ?w1 = "print [PStr '' -'', PStr f] w"
  obtain e w' where X: "extra_analytics L df ?w1 = (e, w')"
    by (cases "extra_analytics L df ?w1")
  obtain ys where Y: "console w' = console ?w1 @ extra_marker # ys"
    using extra_console [of L df ?w1] X by auto
  show ?thesis
  proof (cases e)
    case None
    then have S: "snd (manifest L df (f # fs) w) = snd (manifest L df fs w')"
      using assms X by simp
    obtain zs where "console (snd (manifest L df fs w')) = console w' @ zs"
      using manifest_extends [of w' L df fs] by (auto simp: extends_def)
    then show ?thesis using S Y by simp
  next
    case (Some err)
    then have "snd (manifest L df (f # fs) w) = w'"
      using assms X by simp
    then show ?thesis using Y by simp
  qed
qed

subsection \<open>The whole run\<close>

lemma main_missing_file:
  assumes "files w file_name = None"
  shows "main L w =
     (SysExit 1,
      print [PStr ''Please put the file in the same folder as this script and run again.'']
        (print [PStr ''ERROR: Excel file not found in project folder:'', PStr file_name] w))"
  using assms by (simp add: main_def)

lemma pipeline_missing_column:
  assumes "price (resolve (strip_text L df0)) = None \<or> part (resolve (strip_text L df0)) = None"
  shows "pipeline L df0 w = (SysExit 1, print missing_column_message (report L df0 w))"
proof (cases "price (resolve (strip_text L df0))")
  case None
  then show ?thesis
    by (simp only: pipeline_eq Let_def prod.case option.case)
next
  case (Some a)
  then have "part (resolve (strip_text L df0)) = None"
    using assms by simp
  with Some show ?thesis
    by (simp only: pipeline_eq Let_def prod.case option.case)
qed

lemma pipeline_resolved:
  assumes "price (resolve (strip_text L df0)) = Some pr"
    and "part (resolve (strip_text L df0)) = Some pa"
  shows "pipeline L df0 w =
     (case charts (resolve (strip_text L df0)) pr (derived L df0 pr pa) (exported L df0 pr pa w) of
        (Some e, w6) \<Rightarrow> (Uncaught e, w6)
      | (None, w6) \<Rightarrow> manifest L (derived L df0 pr pa) output_names (print all_done w6))"
  using assms
  by (simp only: pipeline_eq Let_def prod.case option.case exported_def)

lemma main_missing_column:
  assumes "files w file_name = Some (Workbook df0)"
    and "price (resolve (strip_text L df0)) = None \<or> part (resolve (strip_text L df0)) = None"
  shows "main L w = (SysExit 1, print missing_column_message (report L df0 w))"
  by (simp add: main_def read_excel_def assms(1) pipeline_missing_column [OF assms(2)])

lemma main_resolved:
  assumes "files w file_name = Some (Workbook df0)"
    and "price (resolve (strip_text L df0)) = Some pr"
    and "part (resolve (strip_text L df0)) = Some pa"
  shows "main L w =
     (case charts (resolve (strip_text L df0)) pr (derived L df0 pr pa) (exported L df0 pr pa w) of
        (Some e, w6) \<Rightarrow> (Uncaught e, w6)
      | (None, w6) \<Rightarrow> manifest L (derived L df0 pr pa) output_names (print all_done w6))"
  by (simp add: main_def read_excel_def assms(1) pipeline_resolved [OF assms(2,3)])

lemma exported_written:
  "written (exported L df0 pr pa w) =
     written w @ [clean_name, ''top20_by_revenue.csv'']
       @ (case competitor_price (resolve (strip_text L df0)) of
            Some c \<Rightarrow> [''parts_overpriced_gt10pct.csv''] | None \<Rightarrow> [])
       @ (case cost (resolve (strip_text L df0)) of
            Some co \<Rightarrow> (case units (resolve (strip_text L df0)) of
                          Some un \<Rightarrow> [''low_margin_high_sales.csv''] | None \<Rightarrow> [])
          | None \<Rightarrow> [])"
  unfolding exported_def by (simp only: exports_written print_effect report_effect)

lemma exported_contents:
  "files (exported L df0 pr pa w) clean_name = Some (Csv (derived L df0 pr pa))"
  "files (exported L df0 pr pa w) ''top20_by_revenue.csv''
     = Some (Csv (top_revenue L (derived L df0 pr pa)))"
  "files (exported L df0 pr pa w) ''parts_overpriced_gt10pct.csv'' =
     (case competitor_price (resolve (strip_text L df0)) of
        Some c \<Rightarrow> Some (Csv (overpriced L (derived L df0 pr pa)))
      | None \<Rightarrow> files w ''parts_overpriced_gt10pct.csv'')"
  "files (exported L df0 pr pa w) ''low_margin_high_sales.csv'' =
     (case cost (resolve (strip_text L df0)) of
        Some co \<Rightarrow> (case units (resolve (strip_text L df0)) of
                      Some un \<Rightarrow> Some (Csv (low_margin_high_sales L un (derived L df0 pr pa)))
                    | None \<Rightarrow> files w ''low_margin_high_sales.csv'')
      | None \<Rightarrow> files w ''low_margin_high_sales.csv'')"
  unfolding exported_def by (simp_all only: exports_contents print_effect report_effect)

lemma exported_console:
  "\<exists>ys. console (exported L df0 pr pa w) = console w @ ys
        \<and> extra_marker \<notin> set ys \<and> all_done \<notin> set ys
        \<and> (competitor_price (resolve (strip_text L df0)) = None \<longrightarrow> no_competitor_notice \<in> set ys)
        \<and> (cost (resolve (strip_text L df0)) = None \<or> units (resolve (strip_text L df0)) = None
             \<longrightarrow> no_cost_units_notice \<in> set ys)"
proof -
  define cm where "cm = resolve (strip_text L df0)"
  define line where "line = [PStr ''Rows after dropping missing key fields:'',
               PNat (length (rows (cleaned L df0 pr pa)))]"
  define w4 where "w4 = print line (report L df0 w)"
  have E: "exported L df0 pr pa w = export L cm (derived L df0 pr pa) w4"
    by (simp only: exported_def w4_def line_def cm_def)
  from report_console [of L df0 w]
  obtain ys where 1: "console (report L df0 w) = console w @ ys"
    "extra_marker \<notin> set ys" "all_done \<notin> set ys"
    by blast
  from exports_console [of L cm "derived L df0 pr pa" w4]
  obtain zs where Z: "console (export L cm (derived L df0 pr pa) w4) = console w4 @ zs
        \<and> extra_marker \<notin> set zs \<and> all_done \<notin> set zs
        \<and> (competitor_price cm = None \<longrightarrow> no_competitor_notice \<in> set zs)
        \<and> (cost cm = None \<or> units cm = None \<longrightarrow> no_cost_units_notice \<in> set zs)"
    ..
  have 2: "console (export L cm (derived L df0 pr pa) w4) = console w4 @ zs"
    "extra_marker \<notin> set zs" "all_done \<notin> set zs"
    "competitor_price cm = None \<longrightarrow> no_competitor_notice \<in> set zs"
    "cost cm = None \<or> units cm = None \<longrightarrow> no_cost_units_notice \<in> set zs"
    using Z by simp_all
  have L1: "line \<noteq> extra_marker" and L2: "line \<noteq> all_done"
    by (simp_all add: line_def extra_marker_def all_done_def)
  have c4: "console w4 = console w @ ys @ [line]"
    by (simp add: w4_def print_effect 1(1))
  have A: "console (exported L df0 pr pa w) = console w @ (ys @ line # zs)"
    by (simp add: E 2(1) c4)
  have B: "extra_marker \<notin> set (ys @ line # zs)" "all_done \<notin> set (ys @ line # zs)"
    using 1(2,3) 2(2,3) L1 L2 by auto
  have C: "competitor_price cm = None \<longrightarrow> no_competitor_notice \<in> set (ys @ line # zs)"
    "cost cm = None \<or> units cm = None \<longrightarrow> no_cost_units_notice \<in> set (ys @ line # zs)"
    using 2(4,5) by auto
  show ?thesis
    apply (rule exI [of _ "ys @ line # zs"])
    using A B C unfolding cm_def by simp
qed

text \<open>After the exports a run only touches the charts and the file of the extra block.\<close>

lemma main_resolved_extends:
  assumes "files w file_name = Some (Workbook df0)"
    and "price (resolve (strip_text L df0)) = Some pr"
    and "part (resolve (strip_text L df0)) = Some pa"
  shows "extends (chart_names \<union> extra_names) (exported L df0 pr pa w) (snd (main L w))"
proof -
  define cm where "cm = resolve (strip_text L df0)"
  define D where "D = derived L df0 pr pa"
  define w5 where "w5 = exported L df0 pr pa w"
  have M: "main L w =
     (case charts cm pr D w5 of
        (Some e, w6) \<Rightarrow> (Uncaught e, w6)
      | (None, w6) \<Rightarrow> manifest L D output_names (print all_done w6))"
    unfolding cm_def D_def w5_def by (rule main_resolved [OF assms])
  obtain e w6 where C: "charts cm pr D w5 = (e, w6)"
    by (cases "charts cm pr D w5")
  have E: "extends chart_names w5 w6"
    using charts_extends [of w5 cm pr D] C by simp
  show ?thesis
  proof (cases e)
    case (Some err)
    then have "snd (main L w) = w6"
      by (simp add: M C)
    then show ?thesis
      using extends_trans [OF E extends_refl [of extra_names w6], of "chart_names \<union> extra_names"]
      by (simp add: w5_def)
  next
    case None
    then have S: "snd (main L w) = snd (manifest L D output_names (print all_done w6))"
      by (simp add: M C)
    have "extends extra_names w6 (snd (manifest L D output_names (print all_done w6)))"
      by (rule extends_trans [OF extends_print [of extra_names] manifest_extends]) simp_all
    then show ?thesis
      using extends_trans [OF E, of extra_names _ "chart_names \<union> extra_names"] S
      by (simp add: w5_def)
  qed
qed

lemma main_resolved_outcome:
  assumes "files w file_name = Some (Workbook df0)"
    and "price (resolve (strip_text L df0)) = Some pr"
    and "part (resolve (strip_text L df0)) = Some pa"
  shows "fst (main L w) \<noteq> SysExit n"
proof -
  define cm where "cm = resolve (strip_text L df0)"
  define D where "D = derived L df0 pr pa"
  define w5 where "w5 = exported L df0 pr pa w"
  have M: "main L w =
     (case charts cm pr D w5 of
        (Some e, w6) \<Rightarrow> (Uncaught e, w6)
      | (None, w6) \<Rightarrow> manifest L D output_names (print all_done w6))"
    unfolding cm_def D_def w5_def by (rule main_resolved [OF assms])
  obtain e w6 where C: "charts cm pr D w5 = (e, w6)"
    by (cases "charts cm pr D w5")
  show ?thesis
    using manifest_outcome [of L D output_names "print all_done w6" n]
    by (cases e) (simp_all add: M C)
qed

lemma trace_empty:
  assumes "trace w = []"
  shows "written w = []" and "console w = []"
  using assms by (simp_all add: written_def console_def)

lemma main_resolved_after_exports:
  assumes "files w file_name = Some (Workbook df0)"
    and "price (resolve (strip_text L df0)) = Some pr"
    and "part (resolve (strip_text L df0)) = Some pa"
  shows "\<exists>xs. written (snd (main L w)) = written (exported L df0 pr pa w) @ xs
              \<and> set xs \<subseteq> chart_names \<union> extra_names"
    and "n \<notin> chart_names \<union> extra_names \<Longrightarrow>
           files (snd (main L w)) n = files (exported L df0 pr pa w) n"
    and "\<exists>ys. console (snd (main L w)) = console (exported L df0 pr pa w) @ ys"
  using main_resolved_extends [OF assms] unfolding extends_def by simp_all

lemma main_resolved_pct_chart:
  assumes "files w file_name = Some (Workbook df0)"
    and "price (resolve (strip_text L df0)) = Some pr"
    and "part (resolve (strip_text L df0)) = Some pa"
    and cp: "competitor_price (resolve (strip_text L df0)) = None"
    and fresh: "written w = []"
  shows "''chart_price_pct_diff.png'' \<notin> set (written (snd (main L w)))"
proof -
  define cm where "cm = resolve (strip_text L df0)"
  define D where "D = derived L df0 pr pa"
  define w5 where "w5 = exported L df0 pr pa w"
  have M: "main L w =
     (case charts cm pr D w5 of
        (Some e, w6) \<Rightarrow> (Uncaught e, w6)
      | (None, w6) \<Rightarrow> manifest L D output_names (print all_done w6))"
    unfolding cm_def D_def w5_def by (rule main_resolved [OF assms(1-3)])
  obtain e w6 where C: "charts cm pr D w5 = (e, w6)"
    by (cases "charts cm pr D w5")
  have W5: "''chart_price_pct_diff.png'' \<notin> set (written w5)"
    unfolding w5_def exported_written
    by (simp add: fresh clean_name_def split: option.splits)
  have "written w6 = written w5 \<or> written w6 = written w5 @ [''chart_price_distribution.png'']"
    using charts_pct_not_written [of cm pr D w5] cp C by (simp add: cm_def)
  then have W6: "''chart_price_pct_diff.png'' \<notin> set (written w6)"
    using W5 by auto
  have X: "extends extra_names w6 (snd (main L w))"
  proof (cases e)
    case (Some err)
    then show ?thesis by (simp add: M C extends_refl)
  next
    case None
    then have "snd (main L w) = snd (manifest L D output_names (print all_done w6))"
      by (simp add: M C)
    then show ?thesis
      using extends_trans [OF extends_print [of extra_names] manifest_extends, of extra_names]
      by simp
  qed
  then obtain xs where "written (snd (main L w)) = written w6 @ xs" and "set xs \<subseteq> extra_names"
    unfolding extends_def by auto
  then show ?thesis
    using W6 by (auto simp: extra_names_def)
qed

lemma to_numeric_not_text: "\<not> is_txt (to_numeric L v)"
  by (cases v; cases "to_float L (case v of Txt s \<Rightarrow> s | _ \<Rightarrow> [])")
     (simp_all add: to_numeric_def)

lemma to_numeric_unparseable:
  "to_float L s = NA \<or> is_txt (to_float L s) \<Longrightarrow> to_numeric L (Txt s) = NA"
  by (cases "to_float L s") (simp_all add: to_numeric_def)

lemma main_resolved_continues:
  assumes f: "files w file_name = Some (Workbook df0)"
    and pr: "price (resolve (strip_text L df0)) = Some pr"
    and pa: "part (resolve (strip_text L df0)) = Some pa"
    and t: "trace w = []"
  shows "files (snd (main L w)) clean_name = Some (Csv (derived L df0 pr pa))"
    and "clean_name \<in> set (written (snd (main L w)))"
    and "''top20_by_revenue.csv'' \<in> set (written (snd (main L w)))"
    and "competitor_price (resolve (strip_text L df0)) = None \<Longrightarrow>
           ''parts_overpriced_gt10pct.csv'' \<notin> set (written (snd (main L w)))
           \<and> no_competitor_notice \<in> set (console (snd (main L w)))"
    and "cost (resolve (strip_text L df0)) = None \<or> units (resolve (strip_text L df0)) = None \<Longrightarrow>
           ''low_margin_high_sales.csv'' \<notin> set (written (snd (main L w)))
           \<and> no_cost_units_notice \<in> set (console (snd (main L w)))"
proof -
  define w5 where "w5 = exported L df0 pr pa w"
  define w' where "w' = snd (main L w)"
  note A = main_resolved_after_exports [OF f pr pa, folded w5_def w'_def]
  obtain xs where xs: "written w' = written w5 @ xs" "set xs \<subseteq> chart_names \<union> extra_names"
    using A(1) by auto
  obtain ys where ys: "console w' = console w5 @ ys"
    using A(3) by auto
  from exported_console [of L df0 pr pa w, folded w5_def]
  obtain zs where Z: "console w5 = console w @ zs
        \<and> extra_marker \<notin> set zs \<and> all_done \<notin> set zs
        \<and> (competitor_price (resolve (strip_text L df0)) = None \<longrightarrow> no_competitor_notice \<in> set zs)
        \<and> (cost (resolve (strip_text L df0)) = None \<or> units (resolve (strip_text L df0)) = None
             \<longrightarrow> no_cost_units_notice \<in> set zs)"
    ..
  have W5: "written w5 = [clean_name, ''top20_by_revenue.csv'']
       @ (case competitor_price (resolve (strip_text L df0)) of
            Some c \<Rightarrow> [''parts_overpriced_gt10pct.csv''] | None \<Rightarrow> [])
       @ (case cost (resolve (strip_text L df0)) of
            Some co \<Rightarrow> (case units (resolve (strip_text L df0)) of
                          Some un \<Rightarrow> [''low_margin_high_sales.csv''] | None \<Rightarrow> [])
          | None \<Rightarrow> [])"
    unfolding w5_def exported_written by (simp add: trace_empty [OF t])
  have late: "''parts_overpriced_gt10pct.csv'' \<notin> set xs" "''low_margin_high_sales.csv'' \<notin> set xs"
    using xs(2) by (auto simp: chart_names_def extra_names_def)
  have "clean_name \<notin> chart_names \<union> extra_names"
    by (simp add: clean_name_def chart_names_def extra_names_def)
  then show "files (snd (main L w)) clean_name = Some (Csv (derived L df0 pr pa))"
    using A(2) [of clean_name] by (simp add: w5_def w'_def exported_contents)
  show "clean_name \<in> set (written (snd (main L w)))"
    by (simp add: xs(1) W5 w'_def [symmetric])
  show "''top20_by_revenue.csv'' \<in> set (written (snd (main L w)))"
    by (simp add: xs(1) W5 w'_def [symmetric])
  show "''parts_overpriced_gt10pct.csv'' \<notin> set (written (snd (main L w)))
           \<and> no_competitor_notice \<in> set (console (snd (main L w)))"
    if "competitor_price (resolve (strip_text L df0)) = None"
    using that late Z
    by (simp add: xs(1) ys W5 w'_def [symmetric] clean_name_def split: option.splits)
  show "''low_margin_high_sales.csv'' \<notin> set (written (snd (main L w)))
           \<and> no_cost_units_notice \<in> set (console (snd (main L w)))"
    if "cost (resolve (strip_text L df0)) = None \<or> units (resolve (strip_text L df0)) = None"
    using that late Z
    by (auto simp add: xs(1) ys W5 w'_def [symmetric] clean_name_def split: option.splits)
qed

text \<open>
  What holds of the two fatal exits and of the failures that are not fatal, for a run that
  starts with nothing printed or written. When the workbook is absent, or when it
  is there and the price or the part column does not resolve, the run prints its error message,
  ends by \<^verbatim>\<open>sys.exit(1)\<close>, has written no file and has left the directory as it was.
  The other failures do not end the run: numeric coercion turns every text into a number or
  a missing value (a text that is no number into a missing value), and a run whose price and
  part columns resolved does not end at a \<^verbatim>\<open>sys.exit\<close>; it writes the cleaned table and the
  top-20 extract, and for an optional column that did not resolve it leaves the dependent
  file out and prints the notice.
\<close>

lemma fatal_exits_and_omissions:
  fixes L w
  defines "w' \<equiv> snd (main L w)"
  assumes t: "trace w = []"
  shows "(files w file_name = None \<longrightarrow>
            fst (main L w) = SysExit 1 \<and> exit_status (fst (main L w)) \<noteq> 0
            \<and> console w' = missing_file_message \<and> written w' = [] \<and> files w' = files w)
    \<and> (\<forall>df0. files w file_name = Some (Workbook df0)
            \<and> (price (resolve (strip_text L df0)) = None \<or> part (resolve (strip_text L df0)) = None)
          \<longrightarrow> fst (main L w) = SysExit 1 \<and> exit_status (fst (main L w)) \<noteq> 0
              \<and> last (console w') = missing_column_message \<and> written w' = []
              \<and> files w' = files w)
    \<and> (\<forall>v. \<not> is_txt (to_numeric L v))
    \<and> (\<forall>s. to_float L s = NA \<or> is_txt (to_float L s) \<longrightarrow> to_numeric L (Txt s) = NA)
    \<and> (\<forall>df0 pr pa. files w file_name = Some (Workbook df0)
            \<and> price (resolve (strip_text L df0)) = Some pr
            \<and> part (resolve (strip_text L df0)) = Some pa
          \<longrightarrow> (\<forall>n. fst (main L w) \<noteq> SysExit n)
              \<and> files w' clean_name = Some (Csv (derived L df0 pr pa))
              \<and> clean_name \<in> set (written w')
              \<and> ''top20_by_revenue.csv'' \<in> set (written w')
              \<and> (competitor_price (resolve (strip_text L df0)) = None \<longrightarrow>
                    ''parts_overpriced_gt10pct.csv'' \<notin> set (written w')
                    \<and> ''chart_price_pct_diff.png'' \<notin> set (written w')
                    \<and> no_competitor_notice \<in> set (console w'))
              \<and> (cost (resolve (strip_text L df0)) = None \<or> units (resolve (strip_text L df0)) = None
                    \<longrightarrow> ''low_margin_high_sales.csv'' \<notin> set (written w')
                        \<and> no_cost_units_notice \<in> set (console w')))"
proof -
  note e = trace_empty [OF t]
  have A: "fst (main L w) = SysExit 1 \<and> exit_status (fst (main L w)) \<noteq> 0
            \<and> console w' = missing_file_message \<and> written w' = [] \<and> files w' = files w"
    if "files w file_name = None"
    unfolding w'_def main_missing_file [OF that]
    by (simp add: print_effect e missing_file_message_def)
  have B: "fst (main L w) = SysExit 1 \<and> exit_status (fst (main L w)) \<noteq> 0
              \<and> last (console w') = missing_column_message \<and> written w' = []
              \<and> files w' = files w"
    if "files w file_name = Some (Workbook df0)"
      and "price (resolve (strip_text L df0)) = None \<or> part (resolve (strip_text L df0)) = None"
    for df0
    unfolding w'_def main_missing_column [OF that]
    by (simp add: print_effect report_effect e)
  have C: "(\<forall>n. fst (main L w) \<noteq> SysExit n)
              \<and> files w' clean_name = Some (Csv (derived L df0 pr pa))
              \<and> clean_name \<in> set (written w')
              \<and> ''top20_by_revenue.csv'' \<in> set (written w')
              \<and> (competitor_price (resolve (strip_text L df0)) = None \<longrightarrow>
                    ''parts_overpriced_gt10pct.csv'' \<notin> set (written w')
                    \<and> ''chart_price_pct_diff.png'' \<notin> set (written w')
                    \<and> no_competitor_notice \<in> set (console w'))
              \<and> (cost (resolve (strip_text L df0)) = None \<or> units (resolve (strip_text L df0)) = None
                    \<longrightarrow> ''low_margin_high_sales.csv'' \<notin> set (written w')
                        \<and> no_cost_units_notice \<in> set (console w'))"
    if f: "files w file_name = Some (Workbook df0)"
      and pr: "price (resolve (strip_text L df0)) = Some pr"
      and pa: "part (resolve (strip_text L df0)) = Some pa"
    for df0 pr pa
    unfolding w'_def
    using main_resolved_outcome [OF f pr pa] main_resolved_continues [OF f pr pa t]
      main_resolved_pct_chart [OF f pr pa _ e(1)]
    by (intro conjI allI impI) simp_all
  have P1: "files w file_name = None \<longrightarrow>
            fst (main L w) = SysExit 1 \<and> exit_status (fst (main L w)) \<noteq> 0
            \<and> console w' = missing_file_message \<and> written w' = [] \<and> files w' = files w"
    by (rule impI) (rule A)
  have P2: "\<forall>df0. files w file_name = Some (Workbook df0)
            \<and> (price (resolve (strip_text L df0)) = None \<or> part (resolve (strip_text L df0)) = None)
          \<longrightarrow> fst (main L w) = SysExit 1 \<and> exit_status (fst (main L w)) \<noteq> 0
              \<and> last (console w') = missing_column_message \<and> written w' = []
              \<and> files w' = files w"
    by (intro allI impI, elim conjE) (rule B; assumption)
  have P3: "\<forall>v. \<not> is_txt (to_numeric L v)"
    by (intro allI) (rule to_numeric_not_text)
  have P4: "\<forall>s. to_float L s = NA \<or> is_txt (to_float L s) \<longrightarrow> to_numeric L (Txt s) = NA"
    by (intro allI impI) (rule to_numeric_unparseable)
  have P5: "\<forall>df0 pr pa. files w file_name = Some (Workbook df0)
            \<and> price (resolve (strip_text L df0)) = Some pr
            \<and> part (resolve (strip_text L df0)) = Some pa
          \<longrightarrow> (\<forall>n. fst (main L w) \<noteq> SysExit n)
              \<and> files w' clean_name = Some (Csv (derived L df0 pr pa))
              \<and> clean_name \<in> set (written w')
              \<and> ''top20_by_revenue.csv'' \<in> set (written w')
              \<and> (competitor_price (resolve (strip_text L df0)) = None \<longrightarrow>
                    ''parts_overpriced_gt10pct.csv'' \<notin> set (written w')
                    \<and> ''chart_price_pct_diff.png'' \<notin> set (written w')
                    \<and> no_competitor_notice \<in> set (console w'))
              \<and> (cost (resolve (strip_text L df0)) = None \<or> units (resolve (strip_text L df0)) = None
                    \<longrightarrow> ''low_margin_high_sales.csv'' \<notin> set (written w')
                        \<and> no_cost_units_notice \<in> set (console w'))"
    by (intro allI impI, elim conjE) (rule C; assumption)
  show ?thesis
    by (rule conjI [OF P1 conjI [OF P2 conjI [OF P3 conjI [OF P4 P5]]]])
qed

subsection \<open>The two filtered extracts\<close>

lemma cell_gt_10: "cell_gt x (Num 10) = (x = PInf \<or> (\<exists>q. x = Num q \<and> 10 < q))"
  by (cases x) (simp_all add: cell_gt_def cell_numeric_def)

lemma overpriced_rows:
  assumes ok: "argsort_ok (argsort L)"
  shows "mset (rows (overpriced L df))
           = mset (filter (\<lambda>r. cell_gt (look r ''Price_pct_diff'') (Num 10)) (rows df))"
    and "sorted_wrt (\<lambda>a b. desc_na_last (look a ''Price_pct_diff'') (look b ''Price_pct_diff''))
           (rows (overpriced L df))"
    and "columns (overpriced L df) = columns df"
  by (simp_all add: overpriced_def mset_sort_values [OF ok] sorted_sort_values [OF ok])


lemma derived_no_competitor:
  assumes pr: "price (resolve (strip_text L df0)) = Some pr"
    and cp: "competitor_price (resolve (strip_text L df0)) = None"
  shows "list_all (\<lambda>r. look r ''Price_diff'' = NA \<and> look r ''Price_pct_diff'' = NA)
           (rows (derived L df0 pr pa))"
proof -
  have f1: "pr \<notin> set derived_names"
    using pr by (rule derived_names_fresh)
  have f2: "\<And>c. None = Some c \<Longrightarrow> c \<notin> set derived_names"
    by simp
  have f3: "\<And>c. cost (resolve (strip_text L df0)) = Some c \<Longrightarrow> c \<notin> set derived_names"
    by (rule derived_names_fresh)
  have f4: "\<And>c. units (resolve (strip_text L df0)) = Some c \<Longrightarrow> c \<notin> set derived_names"
    by (rule derived_names_fresh)
  note D = look_derive_row [where cp = None, OF f1 f2 f3 f4]
  show ?thesis
    by (simp add: rows_derived cp list_all_iff D(1) D(2))
qed

lemma main_resolved_extract_files:
  assumes f: "files w file_name = Some (Workbook df0)"
    and pr: "price (resolve (strip_text L df0)) = Some pr"
    and pa: "part (resolve (strip_text L df0)) = Some pa"
    and t: "trace w = []"
  shows "''parts_overpriced_gt10pct.csv'' \<in> set (written (snd (main L w)))
           \<longleftrightarrow> competitor_price (resolve (strip_text L df0)) \<noteq> None"
    and "''low_margin_high_sales.csv'' \<in> set (written (snd (main L w)))
           \<longleftrightarrow> cost (resolve (strip_text L df0)) \<noteq> None \<and> units (resolve (strip_text L df0)) \<noteq> None"
    and "files (snd (main L w)) ''parts_overpriced_gt10pct.csv'' =
           (case competitor_price (resolve (strip_text L df0)) of
              Some c \<Rightarrow> Some (Csv (overpriced L (derived L df0 pr pa)))
            | None \<Rightarrow> files w ''parts_overpriced_gt10pct.csv'')"
    and "files (snd (main L w)) ''low_margin_high_sales.csv'' =
           (case cost (resolve (strip_text L df0)) of
              Some co \<Rightarrow> (case units (resolve (strip_text L df0)) of
                            Some un \<Rightarrow> Some (Csv (low_margin_high_sales L un (derived L df0 pr pa)))
                          | None \<Rightarrow> files w ''low_margin_high_sales.csv'')
            | None \<Rightarrow> files w ''low_margin_high_sales.csv'')"
proof -
  define w5 where "w5 = exported L df0 pr pa w"
  define w' where "w' = snd (main L w)"
  note A = main_resolved_after_exports [OF f pr pa, folded w5_def w'_def]
  obtain xs where xs: "written w' = written w5 @ xs" "set xs \<subseteq> chart_names \<union> extra_names"
    using A(1) by auto
  have W5: "written w5 = [clean_name, ''top20_by_revenue.csv'']
       @ (case competitor_price (resolve (strip_text L df0)) of
            Some c \<Rightarrow> [''parts_overpriced_gt10pct.csv''] | None \<Rightarrow> [])
       @ (case cost (resolve (strip_text L df0)) of
            Some co \<Rightarrow> (case units (resolve (strip_text L df0)) of
                          Some un \<Rightarrow> [''low_margin_high_sales.csv''] | None \<Rightarrow> [])
          | None \<Rightarrow> [])"
    unfolding w5_def exported_written by (simp add: trace_empty [OF t])
  have late: "''parts_overpriced_gt10pct.csv'' \<notin> set xs" "''low_margin_high_sales.csv'' \<notin> set xs"
    using xs(2) by (auto simp: chart_names_def extra_names_def)
  have n1: "''parts_overpriced_gt10pct.csv'' \<notin> chart_names \<union> extra_names"
    and n2: "''low_margin_high_sales.csv'' \<notin> chart_names \<union> extra_names"
    by (simp_all add: chart_names_def extra_names_def)
  show "''parts_overpriced_gt10pct.csv'' \<in> set (written (snd (main L w)))
           \<longleftrightarrow> competitor_price (resolve (strip_text L df0)) \<noteq> None"
    using late
    by (cases "competitor_price (resolve (strip_text L df0))";
        cases "cost (resolve (strip_text L df0))"; cases "units (resolve (strip_text L df0))")
       (simp_all add: xs(1) W5 w'_def [symmetric] clean_name_def)
  show "''low_margin_high_sales.csv'' \<in> set (written (snd (main L w)))
           \<longleftrightarrow> cost (resolve (strip_text L df0)) \<noteq> None \<and> units (resolve (strip_text L df0)) \<noteq> None"
    using late
    by (cases "competitor_price (resolve (strip_text L df0))";
        cases "cost (resolve (strip_text L df0))"; cases "units (resolve (strip_text L df0))")
       (simp_all add: xs(1) W5 w'_def [symmetric] clean_name_def)
  show "files (snd (main L w)) ''parts_overpriced_gt10pct.csv'' =
           (case competitor_price (resolve (strip_text L df0)) of
              Some c \<Rightarrow> Some (Csv (overpriced L (derived L df0 pr pa)))
            | None \<Rightarrow> files w ''parts_overpriced_gt10pct.csv'')"
    using A(2) [OF n1] by (simp only: w'_def w5_def exported_contents)
  show "files (snd (main L w)) ''low_margin_high_sales.csv'' =
           (case cost (resolve (strip_text L df0)) of
              Some co \<Rightarrow> (case units (resolve (strip_text L df0)) of
                            Some un \<Rightarrow> Some (Csv (low_margin_high_sales L un (derived L df0 pr pa)))
                          | None \<Rightarrow> files w ''low_margin_high_sales.csv'')
            | None \<Rightarrow> files w ''low_margin_high_sales.csv'')"
    using A(2) [OF n2] by (simp only: w'_def w5_def exported_contents)
qed

text \<open>
  C7. On a run that starts with nothing written and passes the two fatal checks, the file
  \<^verbatim>\<open>parts_overpriced_gt10pct.csv\<close> is written if and only if the competitor price column
  resolved. What is written then is the cleaned table restricted to the rows whose
  Price_pct_diff is greater than 10 (a number above 10, or plus infinity), each as often as
  in the cleaned table, in descending order of Price_pct_diff. When the competitor price
  column did not resolve the run leaves that file as it was, and Price_diff and
  Price_pct_diff are missing in every row of the cleaned table that is written.
\<close>

theorem C7_overpriced_extract:
  fixes L w df0 pr pa
  defines "cm \<equiv> resolve (strip_text L df0)"
  defines "D \<equiv> derived L df0 pr pa"
  defines "w' \<equiv> snd (main L w)"
  assumes t: "trace w = []"
    and f: "files w file_name = Some (Workbook df0)"
    and pr: "price cm = Some pr"
    and pa: "part cm = Some pa"
    and ok: "argsort_ok (argsort L)"
  shows "(''parts_overpriced_gt10pct.csv'' \<in> set (written w') \<longleftrightarrow> competitor_price cm \<noteq> None)
    \<and> (competitor_price cm \<noteq> None \<longrightarrow>
          files w' ''parts_overpriced_gt10pct.csv'' = Some (Csv (overpriced L D)))
    \<and> columns (overpriced L D) = columns D
    \<and> mset (rows (overpriced L D))
        = mset (filter (\<lambda>r. cell_gt (look r ''Price_pct_diff'') (Num 10)) (rows D))
    \<and> sorted_wrt (\<lambda>a b. desc_na_last (look a ''Price_pct_diff'') (look b ''Price_pct_diff''))
         (rows (overpriced L D))
    \<and> (\<forall>x. cell_gt x (Num 10) = (x = PInf \<or> (\<exists>q. x = Num q \<and> 10 < q)))
    \<and> files w' clean_name = Some (Csv D)
    \<and> (competitor_price cm = None \<longrightarrow>
          files w' ''parts_overpriced_gt10pct.csv'' = files w ''parts_overpriced_gt10pct.csv''
          \<and> list_all (\<lambda>r. look r ''Price_diff'' = NA \<and> look r ''Price_pct_diff'' = NA) (rows D))"
proof -
  note pr' = pr [unfolded cm_def] and pa' = pa [unfolded cm_def]
  note X = main_resolved_extract_files [OF f pr' pa' t, folded cm_def D_def w'_def]
  have P1: "''parts_overpriced_gt10pct.csv'' \<in> set (written w') \<longleftrightarrow> competitor_price cm \<noteq> None"
    by (rule X(1))
  have P2: "competitor_price cm \<noteq> None \<longrightarrow>
          files w' ''parts_overpriced_gt10pct.csv'' = Some (Csv (overpriced L D))"
    by (cases "competitor_price cm") (simp_all add: X(3))
  note R = overpriced_rows [OF ok, of D]
  have P6: "\<forall>x. cell_gt x (Num 10) = (x = PInf \<or> (\<exists>q. x = Num q \<and> 10 < q))"
    by (intro allI) (rule cell_gt_10)
  have P7: "files w' clean_name = Some (Csv D)"
    unfolding w'_def D_def by (rule main_resolved_continues(1) [OF f pr' pa' t])
  have P8: "competitor_price cm = None \<longrightarrow>
          files w' ''parts_overpriced_gt10pct.csv'' = files w ''parts_overpriced_gt10pct.csv''
          \<and> list_all (\<lambda>r. look r ''Price_diff'' = NA \<and> look r ''Price_pct_diff'' = NA) (rows D)"
  proof
    assume cp: "competitor_price cm = None"
    have "list_all (\<lambda>r. look r ''Price_diff'' = NA \<and> look r ''Price_pct_diff'' = NA) (rows D)"
      unfolding D_def by (rule derived_no_competitor [OF pr' cp [unfolded cm_def]])
    then show "files w' ''parts_overpriced_gt10pct.csv'' = files w ''parts_overpriced_gt10pct.csv''
          \<and> list_all (\<lambda>r. look r ''Price_diff'' = NA \<and> look r ''Price_pct_diff'' = NA) (rows D)"
      by (simp add: X(3) cp)
  qed
  show ?thesis
    by (rule conjI [OF P1 conjI [OF P2 conjI [OF R(3) conjI [OF R(1) conjI [OF R(2)
          conjI [OF P6 conjI [OF P7 P8]]]]]]])
qed

theorem C7_overpriced_extract_witness:
  "trace (start sales_table) = []
   \<and> files (start sales_table) file_name = Some (Workbook sales_table)
   \<and> price (resolve (strip_text lib0 sales_table)) = Some ''Price''
   \<and> part (resolve (strip_text lib0 sales_table)) = Some ''Part_Name''
   \<and> competitor_price (resolve (strip_text lib0 sales_table)) = Some ''Competitor_Price''
   \<and> argsort_ok (argsort lib0)
   \<and> ''parts_overpriced_gt10pct.csv'' \<in> set (written (snd (main lib0 (start sales_table))))
   \<and> files (snd (main lib0 (start sales_table))) ''parts_overpriced_gt10pct.csv''
       = Some (Csv (overpriced lib0 (derived lib0 sales_table ''Price'' ''Part_Name'')))
   \<and> map (\<lambda>r. (look r ''Part_Name'', look r ''Price_pct_diff''))
        (rows (overpriced lib0 (derived lib0 sales_table ''Price'' ''Part_Name'')))
       = [(Txt ''Fuse'', PInf), (Txt ''Brake pad'', Num 50), (Txt ''Oil filter'', Num 25)]"
proof -
  have t: "trace (start sales_table) = []"
    and f: "files (start sales_table) file_name = Some (Workbook sales_table)"
    by (simp_all add: start_def)
  have pr: "price (resolve (strip_text lib0 sales_table)) = Some ''Price''"
    by code_simp
  have pa: "part (resolve (strip_text lib0 sales_table)) = Some ''Part_Name''"
    by code_simp
  have cp: "competitor_price (resolve (strip_text lib0 sales_table)) = Some ''Competitor_Price''"
    by code_simp
  have ok: "argsort_ok (argsort lib0)"
    by (simp add: lib0_def argsort_ok_stable)
  have v: "map (\<lambda>r. (look r ''Part_Name'', look r ''Price_pct_diff''))
        (rows (overpriced lib0 (derived lib0 sales_table ''Price'' ''Part_Name'')))
       = [(Txt ''Fuse'', PInf), (Txt ''Brake pad'', Num 50), (Txt ''Oil filter'', Num 25)]"
    by code_simp
  from C7_overpriced_extract [OF t f pr pa ok] cp
  have "''parts_overpriced_gt10pct.csv'' \<in> set (written (snd (main lib0 (start sales_table))))
   \<and> files (snd (main lib0 (start sales_table))) ''parts_overpriced_gt10pct.csv''
       = Some (Csv (overpriced lib0 (derived lib0 sales_table ''Price'' ''Part_Name'')))"
    by simp
  with t f pr pa cp ok v show ?thesis
    by (intro conjI) simp_all
qed



subsection \<open>When the extra analytics block is entered\<close>

lemma main_reaches_manifest:
  assumes f: "files w file_name = Some (Workbook df0)"
    and pr: "price (resolve (strip_text L df0)) = Some pr"
    and pa: "part (resolve (strip_text L df0)) = Some pa"
    and ch: "fst (charts (resolve (strip_text L df0)) pr (derived L df0 pr pa)
                   (exported L df0 pr pa w)) = None"
  shows "extra_marker \<in> set (console (snd (main L w)))"
    and "all_done \<in> set (console (snd (main L w)))"
proof -
  define cm where "cm = resolve (strip_text L df0)"
  define D where "D = derived L df0 pr pa"
  define w5 where "w5 = exported L df0 pr pa w"
  have M: "main L w =
     (case charts cm pr D w5 of
        (Some e, w6) \<Rightarrow> (Uncaught e, w6)
      | (None, w6) \<Rightarrow> manifest L D output_names (print all_done w6))"
    unfolding cm_def D_def w5_def by (rule main_resolved [OF f pr pa])
  obtain w6 where C: "charts cm pr D w5 = (None, w6)"
    using ch unfolding cm_def D_def w5_def
    by (cases "charts (resolve (strip_text L df0)) pr (derived L df0 pr pa) (exported L df0 pr pa w)")
       simp
  define w7 where "w7 = print all_done w6"
  have S: "snd (main L w) = snd (manifest L D output_names w7)"
    by (simp add: M C w7_def)
  have "extends chart_names w5 w6"
    using charts_extends [of w5 cm pr D] C by simp
  moreover have "clean_name \<notin> chart_names"
    by (simp add: clean_name_def chart_names_def)
  ultimately have "files w6 clean_name = files w5 clean_name"
    by (simp add: extends_def)
  then have F: "files w7 clean_name \<noteq> None"
    by (simp add: w7_def print_effect w5_def exported_contents)
  have O: "output_names = clean_name # tl output_names"
    by (simp add: output_names_def clean_name_def)
  show "extra_marker \<in> set (console (snd (main L w)))"
    unfolding S using manifest_enters [OF F, of L D "tl output_names"] O by simp
  obtain ys where "console (snd (manifest L D output_names w7)) = console w7 @ ys"
    using manifest_extends [of w7 L D output_names] by (auto simp: extends_def)
  then show "all_done \<in> set (console (snd (main L w)))"
    by (simp add: S w7_def print_effect)
qed

lemma main_stops_before_manifest:
  assumes t: "trace w = []"
    and no: "\<And>df0 pr pa. files w file_name = Some (Workbook df0) \<Longrightarrow>
               price (resolve (strip_text L df0)) = Some pr \<Longrightarrow>
               part (resolve (strip_text L df0)) = Some pa \<Longrightarrow>
               fst (charts (resolve (strip_text L df0)) pr (derived L df0 pr pa)
                      (exported L df0 pr pa w)) \<noteq> None"
  shows "extra_marker \<notin> set (console (snd (main L w))) \<and> all_done \<notin> set (console (snd (main L w)))"
proof (cases "files w file_name")
  case None
  show ?thesis
    unfolding main_missing_file [OF None]
    by (simp add: print_effect trace_empty [OF t] extra_marker_def all_done_def)
next
  case (Some c)
  show ?thesis
  proof (cases c)
    case (Workbook df0)
    then have f: "files w file_name = Some (Workbook df0)"
      using Some by simp
    show ?thesis
    proof (cases "price (resolve (strip_text L df0)) = None \<or> part (resolve (strip_text L df0)) = None")
      case True
      from report_console [of L df0 w]
      obtain ys where Y: "console (report L df0 w) = console w @ ys
          \<and> extra_marker \<notin> set ys \<and> all_done \<notin> set ys"
        ..
      have "missing_column_message \<noteq> extra_marker" and "missing_column_message \<noteq> all_done"
        by (simp_all add: missing_column_message_def extra_marker_def all_done_def)
      then show ?thesis
        unfolding main_missing_column [OF f True]
        using Y by (simp add: print_effect trace_empty [OF t])
    next
      case False
      then obtain pr pa where pr: "price (resolve (strip_text L df0)) = Some pr"
        and pa: "part (resolve (strip_text L df0)) = Some pa"
        by auto
      define cm where "cm = resolve (strip_text L df0)"
      define D where "D = derived L df0 pr pa"
      define w5 where "w5 = exported L df0 pr pa w"
      have M: "main L w =
         (case charts cm pr D w5 of
            (Some e, w6) \<Rightarrow> (Uncaught e, w6)
          | (None, w6) \<Rightarrow> manifest L D output_names (print all_done w6))"
        unfolding cm_def D_def w5_def by (rule main_resolved [OF f pr pa])
      obtain e w6 where C: "charts cm pr D w5 = (Some e, w6)"
        using no [OF f pr pa] unfolding cm_def [symmetric] D_def [symmetric] w5_def [symmetric]
        by (cases "charts cm pr D w5") auto
      have S: "snd (main L w) = w6"
        by (simp add: M C)
      from exported_console [of L df0 pr pa w]
      obtain zs where Z: "console w5 = console w @ zs
          \<and> extra_marker \<notin> set zs \<and> all_done \<notin> set zs
          \<and> (competitor_price (resolve (strip_text L df0)) = None \<longrightarrow> no_competitor_notice \<in> set zs)
          \<and> (cost (resolve (strip_text L df0)) = None \<or> units (resolve (strip_text L df0)) = None
               \<longrightarrow> no_cost_units_notice \<in> set zs)"
        unfolding w5_def ..
      from charts_console [of cm pr D w5]
      obtain ys where Y: "console (snd (charts cm pr D w5)) = console w5 @ ys
          \<and> extra_marker \<notin> set ys \<and> all_done \<notin> set ys"
        ..
      show ?thesis
        unfolding S using Y Z by (simp add: C trace_empty [OF t])
    qed
  next
    case (Csv x)
    then show ?thesis
      using Some by (simp add: main_def read_excel_def trace_empty [OF t])
  next
    case (Png x)
    then show ?thesis
      using Some by (simp add: main_def read_excel_def trace_empty [OF t])
  next
    case Other
    then show ?thesis
      using Some by (simp add: main_def read_excel_def trace_empty [OF t])
  qed
qed

text \<open>
  C2 (as amended). The extra analytics block is the body of the existence check in the manifest
  loop, and the first file the loop looks for is the cleaned CSV, which the run has written.
  So, on a run that starts with nothing printed: the block is entered exactly when the run
  gets to the manifest loop (the line \<^verbatim>\<open>All done\<close> is printed); a run that ends at a
  \<^verbatim>\<open>sys.exit\<close> never enters it; and every run that passes the two fatal checks and renders
  its charts enters it.
\<close>

theorem C2_extra_block_entered_with_manifest:
  assumes t: "trace w = []"
  shows "(extra_marker \<in> set (console (snd (main L w)))
            \<longleftrightarrow> all_done \<in> set (console (snd (main L w))))
    \<and> (\<forall>n. fst (main L w) = SysExit n \<longrightarrow> extra_marker \<notin> set (console (snd (main L w))))
    \<and> (\<forall>df0 pr pa. files w file_name = Some (Workbook df0)
            \<and> price (resolve (strip_text L df0)) = Some pr
            \<and> part (resolve (strip_text L df0)) = Some pa
            \<and> fst (charts (resolve (strip_text L df0)) pr (derived L df0 pr pa)
                     (exported L df0 pr pa w)) = None
          \<longrightarrow> extra_marker \<in> set (console (snd (main L w))))"
proof -
  define reach where "reach =
    (\<exists>df0 pr pa. files w file_name = Some (Workbook df0)
            \<and> price (resolve (strip_text L df0)) = Some pr
            \<and> part (resolve (strip_text L df0)) = Some pa
            \<and> fst (charts (resolve (strip_text L df0)) pr (derived L df0 pr pa)
                     (exported L df0 pr pa w)) = None)"
  have P3: "\<forall>df0 pr pa. files w file_name = Some (Workbook df0)
            \<and> price (resolve (strip_text L df0)) = Some pr
            \<and> part (resolve (strip_text L df0)) = Some pa
            \<and> fst (charts (resolve (strip_text L df0)) pr (derived L df0 pr pa)
                     (exported L df0 pr pa w)) = None
          \<longrightarrow> extra_marker \<in> set (console (snd (main L w)))"
    by (intro allI impI, elim conjE) (rule main_reaches_manifest(1); assumption)
  have P12: "(extra_marker \<in> set (console (snd (main L w)))
            \<longleftrightarrow> all_done \<in> set (console (snd (main L w))))
    \<and> (\<forall>n. fst (main L w) = SysExit n \<longrightarrow> extra_marker \<notin> set (console (snd (main L w))))"
  proof (cases reach)
    case True
    then obtain df0 pr pa where f: "files w file_name = Some (Workbook df0)"
      and pr: "price (resolve (strip_text L df0)) = Some pr"
      and pa: "part (resolve (strip_text L df0)) = Some pa"
      and ch: "fst (charts (resolve (strip_text L df0)) pr (derived L df0 pr pa)
                     (exported L df0 pr pa w)) = None"
      unfolding reach_def by auto
    show ?thesis
      using main_reaches_manifest [OF f pr pa ch] main_resolved_outcome [OF f pr pa]
      by simp
  next
    case False
    have "extra_marker \<notin> set (console (snd (main L w)))
        \<and> all_done \<notin> set (console (snd (main L w)))"
    proof (rule main_stops_before_manifest [OF t])
      fix df0 pr pa
      assume "files w file_name = Some (Workbook df0)"
        and "price (resolve (strip_text L df0)) = Some pr"
        and "part (resolve (strip_text L df0)) = Some pa"
      then show "fst (charts (resolve (strip_text L df0)) pr (derived L df0 pr pa)
                     (exported L df0 pr pa w)) \<noteq> None"
        using False unfolding reach_def by auto
    qed
    then show ?thesis by simp
  qed
  show ?thesis
    by (rule conjI [OF P12 [THEN conjunct1] conjI [OF P12 [THEN conjunct2] P3]])
qed

theorem C2_extra_block_entered_with_manifest_witness:
  "trace (start full_table) = []
   \<and> files (start full_table) file_name = Some (Workbook full_table)
   \<and> price (resolve (strip_text lib0 full_table)) = Some ''Price''
   \<and> part (resolve (strip_text lib0 full_table)) = Some ''Part_Name''
   \<and> fst (charts (resolve (strip_text lib0 full_table)) ''Price''
             (derived lib0 full_table ''Price'' ''Part_Name'')
             (exported lib0 full_table ''Price'' ''Part_Name'' (start full_table))) = None
   \<and> extra_marker \<in> set (console (snd (main lib0 (start full_table))))
   \<and> all_done \<in> set (console (snd (main lib0 (start full_table))))"
proof -
  have t: "trace (start full_table) = []"
    and f: "files (start full_table) file_name = Some (Workbook full_table)"
    by (simp_all add: start_def)
  have pr: "price (resolve (strip_text lib0 full_table)) = Some ''Price''"
    by code_simp
  have pa: "part (resolve (strip_text lib0 full_table)) = Some ''Part_Name''"
    by code_simp
  have ch: "fst (charts (resolve (strip_text lib0 full_table)) ''Price''
             (derived lib0 full_table ''Price'' ''Part_Name'')
             (exported lib0 full_table ''Price'' ''Part_Name'' (start full_table))) = None"
    by code_simp
  note T = C2_extra_block_entered_with_manifest [OF t, of lib0]
  from T f pr pa ch have m: "extra_marker \<in> set (console (snd (main lib0 (start full_table))))"
    by blast
  have a: "all_done \<in> set (console (snd (main lib0 (start full_table))))"
    by (rule iffD1 [OF T [THEN conjunct1] m])
  from t f pr pa ch m a show ?thesis
    by (intro conjI)
qed

text \<open>
  The claim as stated fails: on a workbook that has all the columns the block reads, the run
  enters the block once for each of the six output files, writes the file of the block and
  ends with exit status 0.
\<close>

theorem C2_block_is_executed_counterexample:
  "fst (main lib0 (start full_table)) = Finished
   \<and> length (filter (\<lambda>line. line = extra_marker) (console (snd (main lib0 (start full_table))))) = 6
   \<and> ''top10_profitable_parts.csv'' \<in> set (written (snd (main lib0 (start full_table))))"
  by code_simp

text \<open>
  C1. The claim gives exit status 0 to every run that gets past the two fatal checks. The
  extra analytics block, which the script runs inside the manifest loop, reads the column Brand
  (and six more) without the check the script makes for its other optional columns: a
  well-formed workbook that resolves price and part and has no Brand column ends with an
  uncaught \<^verbatim>\<open>KeyError\<close>, exit status 1, after all its outputs are written.
\<close>

theorem C1_exit_status_without_brand:
  "wf_frame parts_table
   \<and> files (start parts_table) file_name = Some (Workbook parts_table)
   \<and> price (resolve (strip_text lib0 parts_table)) = Some ''Price''
   \<and> part (resolve (strip_text lib0 parts_table)) = Some ''Part_Name''
   \<and> fst (main lib0 (start parts_table)) = Uncaught (KeyError ''Brand'')
   \<and> exit_status (fst (main lib0 (start parts_table))) = 1
   \<and> written (snd (main lib0 (start parts_table))) =
       [''cleaned_automotive_pricing.csv'', ''top20_by_revenue.csv'',
        ''parts_overpriced_gt10pct.csv'', ''low_margin_high_sales.csv'',
        ''chart_price_distribution.png'', ''chart_price_pct_diff.png'']"
  by code_simp

text \<open>
  C6. The fatal exits are as the claim says, and the optional columns are skipped with a notice
  where the exports and charts are made (lemma \<open>fatal_exits_and_omissions\<close>). But the run
  does not always continue: the extra analytics block reads the column Cost by its literal
  name, so a workbook without a cost column, for which the script prints its skip notice,
  ends with an uncaught \<^verbatim>\<open>KeyError\<close> and exit status 1.
\<close>

theorem C6_unresolved_cost_aborts:
  "wf_frame no_cost_table
   \<and> price (resolve (strip_text lib0 no_cost_table)) = Some ''Price''
   \<and> part (resolve (strip_text lib0 no_cost_table)) = Some ''Part_Name''
   \<and> cost (resolve (strip_text lib0 no_cost_table)) = None
   \<and> no_cost_units_notice \<in> set (console (snd (main lib0 (start no_cost_table))))
   \<and> fst (main lib0 (start no_cost_table)) = Uncaught (KeyError ''Cost'')
   \<and> exit_status (fst (main lib0 (start no_cost_table))) = 1"
  by code_simp

subsection \<open>The modelling choices are safe\<close>

text \<open>
  The arithmetic of the derived columns never meets a text: after coercion no cell of a
  resolved price, competitor price, cost or units column is a text. And the column the top-20
  extract sorts by is a column of the table, so \<^verbatim>\<open>sort_values\<close> does not raise there.
\<close>

lemma coerce_keeps_not_text:
  "\<not> is_txt (look r k) \<Longrightarrow>
   \<not> is_txt (look (foldl (\<lambda>r key. case key of Some c \<Rightarrow> map_row c (to_numeric L) r | None \<Rightarrow> r)
                  r ks) k)"
proof (induction ks arbitrary: r)
  case Nil
  then show ?case by simp
next
  case (Cons key ks)
  show ?case
  proof (cases key)
    case None
    then show ?thesis using Cons by simp
  next
    case (Some c)
    have "\<not> is_txt (look (map_row c (to_numeric L) r) k)"
      using Cons.prems by (simp add: look_map_row to_numeric_not_text)
    then show ?thesis
      using Cons.IH Some by simp
  qed
qed

lemma coerce_not_text:
  "Some k \<in> set ks \<Longrightarrow>
   \<not> is_txt (look (foldl (\<lambda>r key. case key of Some c \<Rightarrow> map_row c (to_numeric L) r | None \<Rightarrow> r)
                  r ks) k)"
proof (induction ks arbitrary: r)
  case Nil
  then show ?case by simp
next
  case (Cons key ks)
  show ?case
  proof (cases "key = Some k")
    case True
    have "\<not> is_txt (look (map_row k (to_numeric L) r) k)"
    proof (cases "k \<in> fst ` set r")
      case True
      then show ?thesis by (simp add: look_map_row to_numeric_not_text)
    next
      case False
      then have "map_of r k = None"
        by (simp add: map_of_eq_None_iff)
      then show ?thesis by (simp add: look_def map_of_map_row)
    qed
    then show ?thesis
      using True coerce_keeps_not_text by simp
  next
    case False
    then have "Some k \<in> set ks"
      using Cons.prems by simp
    then show ?thesis
      using Cons.IH by (cases key) simp_all
  qed
qed

lemma cleaned_roles_not_text:
  assumes r: "r \<in> set (rows (cleaned L df0 pr pa))"
    and k: "Some k \<in> set [price (resolve (strip_text L df0)),
                          competitor_price (resolve (strip_text L df0)),
                          cost (resolve (strip_text L df0)), units (resolve (strip_text L df0))]"
  shows "\<not> is_txt (look r k)"
proof -
  obtain r0 where "r = prep_row L df0 r0"
    using cleaned_rows_from_prepared [OF r] by blast
  then show ?thesis
    unfolding prep_row_def Let_def using coerce_not_text [OF k] by simp
qed

lemma rev_col_in_columns: "rev_col (derive pr cp co un df) \<in> set (columns (derive pr cp co un df))"
proof -
  have "''Revenue_calc'' \<in> set (columns (derive pr cp co un df))"
    using columns_derive [of pr cp co un df] by (auto simp: derived_names_def)
  then show ?thesis
    by (simp add: rev_col_eq)
qed

end
